theory Spec2Isabelle
  imports Complex_Main
begin

section \<open>The host: ECMAScript time values\<close>

text \<open>
  The repository is JavaScript. A \<^verbatim>\<open>Date\<close> object holds a time value: an integral number
  of milliseconds since 1970-01-01T00:00Z, of magnitude at most 8.64e15, or NaN (an
  Invalid Date). Time values are integers that a double represents exactly, so they are
  modelled as \<^typ>\<open>int\<close>, and NaN as \<^term>\<open>None\<close>. The functions of this section are the
  abstract operations of the ECMAScript specification (section "Date Objects"), under
  their names there.
\<close>

type_synonym jsdate = "int option"

definition msPerDay :: int where
  "msPerDay = 86400000"

definition maxTime :: int where
  "maxTime = 8640000000000000"

definition TimeClip :: "int \<Rightarrow> jsdate" where
  "TimeClip t = (if \<bar>t\<bar> > maxTime then None else Some t)"

definition Day :: "int \<Rightarrow> int" where
  "Day t = t div msPerDay"

definition TimeWithinDay :: "int \<Rightarrow> int" where
  "TimeWithinDay t = t mod msPerDay"

definition DaysInYear :: "int \<Rightarrow> int" where
  "DaysInYear y =
     (if y mod 4 \<noteq> 0 then 365
      else if y mod 100 \<noteq> 0 then 366
      else if y mod 400 \<noteq> 0 then 365
      else 366)"

definition DayFromYear :: "int \<Rightarrow> int" where
  "DayFromYear y =
     365 * (y - 1970) + (y - 1969) div 4 - (y - 1901) div 100 + (y - 1601) div 400"

text \<open>
  ECMAScript: YearFromTime(t) is the largest integer y such that DayFromYear(y) is at
  most Day(t). It is computed by a search upwards from a year that is not too late.
\<close>

lemma div_succ:
  fixes a k :: int
  assumes "0 < k"
  shows "(a + 1) div k = a div k + (if (a + 1) mod k = 0 then 1 else 0)"
proof (cases "a mod k + 1 = k")
  case True
  have e: "k * (a div k) + a mod k = a" by simp
  have "k * (a div k + 1) = k * (a div k) + k" by (simp add: distrib_left)
  with e True have "a + 1 = k * (a div k + 1) + 0" by linarith
  then have "(a + 1) div k = a div k + 1" "(a + 1) mod k = 0"
    using assms int_div_pos_eq [of "a + 1" k "a div k + 1" 0]
      int_mod_pos_eq [of "a + 1" k "a div k + 1" 0] by simp_all
  then show ?thesis by simp
next
  case False
  have r: "0 \<le> a mod k" "a mod k < k" using assms by simp_all
  have e: "k * (a div k) + a mod k = a" by simp
  then have "a + 1 = k * (a div k) + (a mod k + 1)" by linarith
  moreover have "0 \<le> a mod k + 1" "a mod k + 1 < k" using r False by simp_all
  ultimately have "(a + 1) div k = a div k" "(a + 1) mod k = a mod k + 1"
    using int_div_pos_eq [of "a + 1" k "a div k" "a mod k + 1"]
      int_mod_pos_eq [of "a + 1" k "a div k" "a mod k + 1"] by simp_all
  then show ?thesis using r by simp
qed

lemma mod_shift:
  fixes a c k :: int
  shows "k dvd c \<Longrightarrow> (a - c) mod k = a mod k"
  by (metis dvd_imp_mod_0 mod_diff_right_eq diff_zero)

lemma div_succ_shift:
  fixes y c k :: int
  assumes "0 < k" "k dvd c"
  shows "(y - c) div k = (y - (c + 1)) div k + (if y mod k = 0 then 1 else 0)"
proof -
  have "(y - c) mod k = y mod k"
    by (rule mod_shift [OF assms(2)])
  moreover have "y - (c + 1) + 1 = y - c" by simp
  ultimately show ?thesis using div_succ [OF assms(1), of "y - (c + 1)"] by simp
qed

lemma dvd_mod_0:
  fixes y j k :: int
  assumes "j dvd k" "y mod k = 0"
  shows "y mod j = 0"
proof -
  from assms(2) have "k dvd y" by (simp add: dvd_eq_mod_eq_0)
  with assms(1) have "j dvd y" by (meson dvd_trans)
  then show ?thesis by (simp add: dvd_eq_mod_eq_0)
qed

lemma DayFromYear_step: "DayFromYear (y + 1) = DayFromYear y + DaysInYear y"
proof -
  have a4: "(y - 1968) div 4 = (y - 1969) div 4 + (if y mod 4 = 0 then 1 else 0)"
    using div_succ_shift [of 4 1968 y] by simp
  have a100: "(y - 1900) div 100 = (y - 1901) div 100 + (if y mod 100 = 0 then 1 else 0)"
    using div_succ_shift [of 100 1900 y] by simp
  have a400: "(y - 1600) div 400 = (y - 1601) div 400 + (if y mod 400 = 0 then 1 else 0)"
    using div_succ_shift [of 400 1600 y] by simp
  have d1: "y mod 100 = 0 \<Longrightarrow> y mod 4 = 0"
    by (rule dvd_mod_0 [of 4 100]) simp_all
  have d2: "y mod 400 = 0 \<Longrightarrow> y mod 100 = 0"
    by (rule dvd_mod_0 [of 100 400]) simp_all
  have "DayFromYear (y + 1) =
      365 * (y - 1969) + (y - 1968) div 4 - (y - 1900) div 100 + (y - 1600) div 400"
    by (simp add: DayFromYear_def)
  also have "\<dots> = DayFromYear y + DaysInYear y"
    unfolding a4 a100 a400 DayFromYear_def DaysInYear_def using d1 d2 by auto
  finally show ?thesis .
qed

lemma DaysInYear_bounds: "365 \<le> DaysInYear y" "DaysInYear y \<le> 366"
  by (simp_all add: DaysInYear_def)

function yearSearch :: "int \<Rightarrow> int \<Rightarrow> int" where
  "yearSearch d y = (if DayFromYear (y + 1) \<le> d then yearSearch d (y + 1) else y)"
  by pat_completeness auto
termination
proof (relation "measure (\<lambda>(d, y). nat (d - DayFromYear y))")
  show "wf (measure (\<lambda>(d, y). nat (d - DayFromYear y)))" by simp
next
  fix d y :: int
  assume "DayFromYear (y + 1) \<le> d"
  then show "((d, y + 1), (d, y)) \<in> measure (\<lambda>(d, y). nat (d - DayFromYear y))"
    using DaysInYear_bounds(1) [of y] by (simp add: DayFromYear_step)
qed

declare yearSearch.simps [simp del]

definition YearFromDay :: "int \<Rightarrow> int" where
  "YearFromDay d =
     yearSearch d (if 0 \<le> d then 1970 + d div 366 else 1970 + d div 365)"

definition YearFromTime :: "int \<Rightarrow> int" where
  "YearFromTime t = YearFromDay (Day t)"

definition InLeapYear :: "int \<Rightarrow> int" where
  "InLeapYear t = (if DaysInYear (YearFromTime t) = 366 then 1 else 0)"

definition DayWithinYear :: "int \<Rightarrow> int" where
  "DayWithinYear t = Day t - DayFromYear (YearFromTime t)"

definition MonthFromTime :: "int \<Rightarrow> int" where
  "MonthFromTime t =
     (let d = DayWithinYear t; l = InLeapYear t in
      if d < 31 then 0
      else if d < 59 + l then 1
      else if d < 90 + l then 2
      else if d < 120 + l then 3
      else if d < 151 + l then 4
      else if d < 181 + l then 5
      else if d < 212 + l then 6
      else if d < 243 + l then 7
      else if d < 273 + l then 8
      else if d < 304 + l then 9
      else if d < 334 + l then 10
      else 11)"

definition DateFromTime :: "int \<Rightarrow> int" where
  "DateFromTime t =
     (let d = DayWithinYear t; l = InLeapYear t; m = MonthFromTime t in
      if m = 0 then d + 1
      else if m = 1 then d - 30
      else if m = 2 then d - 58 - l
      else if m = 3 then d - 89 - l
      else if m = 4 then d - 119 - l
      else if m = 5 then d - 150 - l
      else if m = 6 then d - 180 - l
      else if m = 7 then d - 211 - l
      else if m = 8 then d - 242 - l
      else if m = 9 then d - 272 - l
      else if m = 10 then d - 303 - l
      else d - 333 - l)"

definition WeekDay :: "int \<Rightarrow> int" where
  "WeekDay t = (Day t + 4) mod 7"

definition MakeTime :: "int \<Rightarrow> int \<Rightarrow> int \<Rightarrow> int \<Rightarrow> int" where
  "MakeTime h m s milli = h * 3600000 + m * 60000 + s * 1000 + milli"

text \<open>
  MakeDay(year, month, date): the day number of the first day of the month
  (year + month div 12, month mod 12), plus date - 1. A date outside the month rolls
  over into the neighbouring months.
\<close>

definition monthStart :: "int \<Rightarrow> int \<Rightarrow> int" where
  "monthStart l mn =
     (if mn = 0 then 0
      else if mn = 1 then 31
      else if mn = 2 then 59 + l
      else if mn = 3 then 90 + l
      else if mn = 4 then 120 + l
      else if mn = 5 then 151 + l
      else if mn = 6 then 181 + l
      else if mn = 7 then 212 + l
      else if mn = 8 then 243 + l
      else if mn = 9 then 273 + l
      else if mn = 10 then 304 + l
      else 334 + l)"

definition MakeDay :: "int \<Rightarrow> int \<Rightarrow> int \<Rightarrow> int" where
  "MakeDay year month date =
     (let ym = year + month div 12; mn = month mod 12 in
      DayFromYear ym + monthStart (if DaysInYear ym = 366 then 1 else 0) mn + date - 1)"

definition MakeDate :: "int \<Rightarrow> int \<Rightarrow> int" where
  "MakeDate day time = day * msPerDay + time"

subsection \<open>Local time\<close>

text \<open>
  The methods \<^verbatim>\<open>getDate\<close>, \<^verbatim>\<open>setDate\<close>, \<^verbatim>\<open>setHours\<close>, \<^verbatim>\<open>getDay\<close>, \<^verbatim>\<open>getFullYear\<close>,
  \<^verbatim>\<open>getMonth\<close> and the constructor \<^verbatim>\<open>new Date(y, m, d)\<close> work in the local time of the
  host. The host's time zone is an input of the program that no function takes as an
  argument; here it is the parameter \<open>tza\<close>, the zone's offset from UTC in milliseconds
  (0 for a host on UTC, 3600000 for a host an hour east of it). Zones whose offset
  changes over the year are outside this model.
\<close>

definition LocalTime :: "int \<Rightarrow> int \<Rightarrow> int" where
  "LocalTime tza t = t + tza"

definition UTC :: "int \<Rightarrow> int \<Rightarrow> int" where
  "UTC tza t = t - tza"

definition getDate :: "int \<Rightarrow> jsdate \<Rightarrow> int option" where
  "getDate tza this = map_option (\<lambda>t. DateFromTime (LocalTime tza t)) this"

definition getDay :: "int \<Rightarrow> jsdate \<Rightarrow> int option" where
  "getDay tza this = map_option (\<lambda>t. WeekDay (LocalTime tza t)) this"

definition getFullYear :: "int \<Rightarrow> jsdate \<Rightarrow> int option" where
  "getFullYear tza this = map_option (\<lambda>t. YearFromTime (LocalTime tza t)) this"

definition getMonth :: "int \<Rightarrow> jsdate \<Rightarrow> int option" where
  "getMonth tza this = map_option (\<lambda>t. MonthFromTime (LocalTime tza t)) this"

text \<open>\<^verbatim>\<open>this.setDate(dt)\<close>; the argument is NaN when it was computed from an Invalid Date.\<close>

definition setDate :: "int \<Rightarrow> jsdate \<Rightarrow> int option \<Rightarrow> jsdate" where
  "setDate tza this date =
     (case this of
        None \<Rightarrow> None
      | Some t0 \<Rightarrow>
          (case date of
             None \<Rightarrow> None
           | Some dt \<Rightarrow>
               (let t = LocalTime tza t0;
                    newDate = MakeDate (MakeDay (YearFromTime t) (MonthFromTime t) dt)
                                (TimeWithinDay t)
                in TimeClip (UTC tza newDate))))"

text \<open>\<^verbatim>\<open>this.setHours(h, m, s, ms)\<close>\<close>

definition setHours :: "int \<Rightarrow> jsdate \<Rightarrow> int \<Rightarrow> int \<Rightarrow> int \<Rightarrow> int \<Rightarrow> jsdate" where
  "setHours tza this h m s milli =
     (case this of
        None \<Rightarrow> None
      | Some t0 \<Rightarrow>
          (let t = LocalTime tza t0;
               date = MakeDate (Day t) (MakeTime h m s milli)
           in TimeClip (UTC tza date)))"

text \<open>
  \<^verbatim>\<open>new Date(year, month, date)\<close>: a year from 0 to 99 means 1900 + year; the
  components are read in local time.
\<close>

definition newDateYMD :: "int \<Rightarrow> int option \<Rightarrow> int option \<Rightarrow> int \<Rightarrow> jsdate" where
  "newDateYMD tza year month date =
     (case year of
        None \<Rightarrow> None
      | Some y \<Rightarrow>
          (case month of
             None \<Rightarrow> None
           | Some m \<Rightarrow>
               (let yr = (if 0 \<le> y \<and> y \<le> 99 then 1900 + y else y);
                    finalDate = MakeDate (MakeDay yr m date) (MakeTime 0 0 0 0)
                in TimeClip (UTC tza finalDate))))"

subsection \<open>UTC methods and date strings\<close>

definition getUTCDate :: "jsdate \<Rightarrow> int option" where
  "getUTCDate this = map_option DateFromTime this"

definition setUTCDate :: "jsdate \<Rightarrow> int option \<Rightarrow> jsdate" where
  "setUTCDate this date =
     (case this of
        None \<Rightarrow> None
      | Some t \<Rightarrow>
          (case date of
             None \<Rightarrow> None
           | Some dt \<Rightarrow>
               (let newDate = MakeDate (MakeDay (YearFromTime t) (MonthFromTime t) dt)
                                (TimeWithinDay t)
                in TimeClip newDate)))"

definition HourFromTime :: "int \<Rightarrow> int" where
  "HourFromTime t = (t div 3600000) mod 24"

definition MinFromTime :: "int \<Rightarrow> int" where
  "MinFromTime t = (t div 60000) mod 60"

definition SecFromTime :: "int \<Rightarrow> int" where
  "SecFromTime t = (t div 1000) mod 60"

definition msFromTime :: "int \<Rightarrow> int" where
  "msFromTime t = t mod 1000"

definition digit :: "nat \<Rightarrow> char" where
  "digit n = ''0123456789'' ! n"

definition pad2 :: "nat \<Rightarrow> string" where
  "pad2 n = [digit (n div 10 mod 10), digit (n mod 10)]"

definition pad3 :: "nat \<Rightarrow> string" where
  "pad3 n = digit (n div 100 mod 10) # pad2 n"

definition pad4 :: "nat \<Rightarrow> string" where
  "pad4 n = digit (n div 1000 mod 10) # pad3 n"

definition pad6 :: "nat \<Rightarrow> string" where
  "pad6 n = digit (n div 100000 mod 10) # digit (n div 10000 mod 10) # pad4 n"

text \<open>
  The year of the ISO format: four digits from 0 to 9999, otherwise a sign and six
  digits.
\<close>

definition yearString :: "int \<Rightarrow> string" where
  "yearString y =
     (if 0 \<le> y \<and> y \<le> 9999 then pad4 (nat y)
      else (if y < 0 then CHR ''-'' else CHR ''+'') # pad6 (nat \<bar>y\<bar>))"

datatype error = Error string | RangeError

definition isoDate :: "int \<Rightarrow> string" where
  "isoDate t =
     yearString (YearFromTime t) @ ''-'' @ pad2 (nat (MonthFromTime t + 1)) @ ''-''
       @ pad2 (nat (DateFromTime t))"

definition isoTime :: "int \<Rightarrow> string" where
  "isoTime t =
     pad2 (nat (HourFromTime t)) @ '':'' @ pad2 (nat (MinFromTime t)) @ '':''
       @ pad2 (nat (SecFromTime t)) @ ''.'' @ pad3 (nat (msFromTime t))"

text \<open>\<^verbatim>\<open>this.toISOString()\<close> throws a RangeError on an Invalid Date.\<close>

definition toISOString :: "jsdate \<Rightarrow> error + string" where
  "toISOString this =
     (case this of
        None \<Rightarrow> Inl RangeError
      | Some t \<Rightarrow> Inr (isoDate t @ ''T'' @ isoTime t @ ''Z''))"

text \<open>
  \<^verbatim>\<open>new Date(s)\<close> on a string. The ECMAScript date-time string format is a date
  \<^verbatim>\<open>YYYY\<close>, \<^verbatim>\<open>YYYY-MM\<close> or \<^verbatim>\<open>YYYY-MM-DD\<close> (the year possibly \<^verbatim>\<open>+YYYYYY\<close> or \<^verbatim>\<open>-YYYYYY\<close>),
  alone or followed by \<^verbatim>\<open>THH:mm:ss.sssZ\<close>; the result is in UTC. \<open>isoDateTime\<close> reads
  these strings, with a month from 01 to 12 and a day from 01 to 31; a day beyond the end
  of its month rolls over (as in V8, the engine the repository's tests run on). Of the
  time shapes only the full one is read: it is the one \<open>parseDate\<close> appends.

  What the engine makes of every other string is the field \<open>legacyDateParse\<close> of the
  record \<open>engine\<close>, and nothing is assumed of it: the language leaves the strings outside
  the format to a fallback parser of the implementation. V8 reads
  \<^verbatim>\<open>2024-12-14(T00:00:00.000Z\<close> as midnight of 2024-12-14 in local time (an opening
  parenthesis starts a comment), and gives an Invalid Date for \<^verbatim>\<open>2024-13-01T00:00:00.000Z\<close>.
  The other field of the record is the number of arguments up to which the engine
  spreads an array into a call: \<^verbatim>\<open>Math.min(...xs)\<close> throws a RangeError on a longer array.
\<close>

definition digitVal :: "char \<Rightarrow> nat option" where
  "digitVal c =
     map_of [(CHR ''0'', 0), (CHR ''1'', 1), (CHR ''2'', 2), (CHR ''3'', 3), (CHR ''4'', 4),
             (CHR ''5'', 5), (CHR ''6'', 6), (CHR ''7'', 7), (CHR ''8'', 8), (CHR ''9'', 9)] c"

fun digitsVal :: "nat \<Rightarrow> string \<Rightarrow> nat option" where
  "digitsVal acc [] = Some acc"
| "digitsVal acc (c # cs) =
     (case digitVal c of None \<Rightarrow> None | Some v \<Rightarrow> digitsVal (10 * acc + v) cs)"

definition parseYear :: "string \<Rightarrow> int option" where
  "parseYear s =
     (if length s = 4 then map_option int (digitsVal 0 s)
      else if length s = 7 \<and> (hd s = CHR ''+'' \<or> hd s = CHR ''-'') then
        (case digitsVal 0 (tl s) of
           None \<Rightarrow> None
         | Some v \<Rightarrow>
             if hd s = CHR ''-'' then (if v = 0 then None else Some (- int v))
             else Some (int v))
      else None)"

definition parseField :: "string \<Rightarrow> nat \<Rightarrow> nat \<Rightarrow> int option" where
  "parseField s lo hi =
     (if length s = 3 \<and> hd s = CHR ''-'' then
        (case digitsVal 0 (tl s) of
           None \<Rightarrow> None
         | Some v \<Rightarrow> if lo \<le> v \<and> v \<le> hi then Some (int v) else None)
      else None)"

definition parseISODate :: "string \<Rightarrow> (int \<times> int \<times> int) option" where
  "parseISODate s =
     (let n = (if s \<noteq> [] \<and> (hd s = CHR ''+'' \<or> hd s = CHR ''-'') then 7 else 4);
          r = drop n s
      in case parseYear (take n s) of
           None \<Rightarrow> None
         | Some y \<Rightarrow>
             if r = [] then Some (y, 1, 1)
             else (case parseField (take 3 r) 1 12 of
                     None \<Rightarrow> None
                   | Some m \<Rightarrow>
                       if drop 3 r = [] then Some (y, m, 1)
                       else if length r = 6 then
                         (case parseField (drop 3 r) 1 31 of
                            None \<Rightarrow> None
                          | Some d \<Rightarrow> Some (y, m, d))
                       else None))"

definition parseISOTime :: "string \<Rightarrow> int option" where
  "parseISOTime r =
     (if length r = 14 \<and> r ! 0 = CHR ''T'' \<and> r ! 3 = CHR '':'' \<and> r ! 6 = CHR '':''
         \<and> r ! 9 = CHR ''.'' \<and> r ! 13 = CHR ''Z'' then
        (case (digitsVal 0 (take 2 (drop 1 r)), digitsVal 0 (take 2 (drop 4 r)),
               digitsVal 0 (take 2 (drop 7 r)), digitsVal 0 (take 3 (drop 10 r))) of
           (Some h, Some m, Some s, Some milli) \<Rightarrow>
             if h \<le> 24 \<and> m \<le> 59 \<and> s \<le> 59 \<and> (h < 24 \<or> m = 0 \<and> s = 0 \<and> milli = 0)
             then Some (MakeTime (int h) (int m) (int s) (int milli))
             else None
         | _ \<Rightarrow> None)
      else None)"

definition isoDateTime :: "string \<Rightarrow> int option" where
  "isoDateTime s =
     (let d = takeWhile (\<lambda>c. c \<noteq> CHR ''T'') s;
          r = dropWhile (\<lambda>c. c \<noteq> CHR ''T'') s
      in case parseISODate d of
           None \<Rightarrow> None
         | Some (y, m, dt) \<Rightarrow>
             (case (if r = [] then Some 0 else parseISOTime r) of
                None \<Rightarrow> None
              | Some tm \<Rightarrow> Some (MakeDate (MakeDay y (m - 1) dt) tm)))"

record engine =
  legacyDateParse :: "string \<Rightarrow> int option"
  maxSpread :: nat

definition newDateString :: "engine \<Rightarrow> string \<Rightarrow> jsdate" where
  "newDateString eng s =
     (case isoDateTime s of
        Some t \<Rightarrow> TimeClip t
      | None \<Rightarrow> (case legacyDateParse eng s of None \<Rightarrow> None | Some t \<Rightarrow> TimeClip t))"

text \<open>
  A string is a date of the format, without a time, when \<open>parseISODate\<close> reads it.
\<close>

definition isISODate :: "string \<Rightarrow> bool" where
  "isISODate s = (parseISODate s \<noteq> None)"

section \<open>JavaScript values\<close>

text \<open>
  A number is NaN, an infinity or a finite value. Finite values are modelled as reals:
  the rounding of double arithmetic, and its overflow to an infinity, are outside the
  model, and the two zeros are one. The comparisons are those of JavaScript: every
  comparison with NaN is false.
\<close>

datatype num = NaN | PInf | NInf | Fin real

fun num_lt :: "num \<Rightarrow> num \<Rightarrow> bool" where
  "num_lt NaN _ = False"
| "num_lt _ NaN = False"
| "num_lt (Fin x) (Fin y) = (x < y)"
| "num_lt (Fin x) PInf = True"
| "num_lt NInf (Fin y) = True"
| "num_lt NInf PInf = True"
| "num_lt _ _ = False"

fun num_le :: "num \<Rightarrow> num \<Rightarrow> bool" where
  "num_le NaN _ = False"
| "num_le _ NaN = False"
| "num_le a b = (a = b \<or> num_lt a b)"

definition num_neg :: "num \<Rightarrow> num" where
  "num_neg a = (case a of NaN \<Rightarrow> NaN | PInf \<Rightarrow> NInf | NInf \<Rightarrow> PInf | Fin x \<Rightarrow> Fin (- x))"

fun num_add :: "num \<Rightarrow> num \<Rightarrow> num" where
  "num_add NaN _ = NaN"
| "num_add _ NaN = NaN"
| "num_add (Fin x) (Fin y) = Fin (x + y)"
| "num_add PInf NInf = NaN"
| "num_add NInf PInf = NaN"
| "num_add PInf _ = PInf"
| "num_add NInf _ = NInf"
| "num_add (Fin x) b = b"

definition num_sub :: "num \<Rightarrow> num \<Rightarrow> num" where
  "num_sub a b = num_add a (num_neg b)"

definition num_sign :: "num \<Rightarrow> real" where
  "num_sign a = (case a of NaN \<Rightarrow> 0 | PInf \<Rightarrow> 1 | NInf \<Rightarrow> - 1 | Fin x \<Rightarrow> sgn x)"

definition of_sign :: "real \<Rightarrow> num" where
  "of_sign s = (if s = 0 then NaN else if 0 < s then PInf else NInf)"

fun num_mul :: "num \<Rightarrow> num \<Rightarrow> num" where
  "num_mul NaN _ = NaN"
| "num_mul _ NaN = NaN"
| "num_mul (Fin x) (Fin y) = Fin (x * y)"
| "num_mul a b = of_sign (num_sign a * num_sign b)"

fun num_div :: "num \<Rightarrow> num \<Rightarrow> num" where
  "num_div NaN _ = NaN"
| "num_div _ NaN = NaN"
| "num_div (Fin x) (Fin y) = (if y = 0 then of_sign (sgn x) else Fin (x / y))"
| "num_div (Fin x) _ = Fin 0"
| "num_div a (Fin y) = of_sign (num_sign a * (if y < 0 then - 1 else 1))"
| "num_div _ _ = NaN"

text \<open>
  The values that reach the functions under study: the values of JSON, and Date
  objects. An object is the list of its properties.
\<close>

datatype jsval =
    Undefined
  | Null
  | Bool bool
  | Num num
  | Str string
  | Arr "jsval list"
  | Obj "(string \<times> jsval) list"
  | DateObj jsdate

definition truthy :: "jsval \<Rightarrow> bool" where
  "truthy v =
     (case v of
        Undefined \<Rightarrow> False
      | Null \<Rightarrow> False
      | Bool b \<Rightarrow> b
      | Num n \<Rightarrow> n \<noteq> NaN \<and> n \<noteq> Fin 0
      | Str s \<Rightarrow> s \<noteq> []
      | _ \<Rightarrow> True)"

definition typeOf :: "jsval \<Rightarrow> string" where
  "typeOf v =
     (case v of
        Undefined \<Rightarrow> ''undefined''
      | Bool b \<Rightarrow> ''boolean''
      | Num n \<Rightarrow> ''number''
      | Str s \<Rightarrow> ''string''
      | _ \<Rightarrow> ''object'')"

text \<open>\<^verbatim>\<open>v.key\<close>, for the keys \<^verbatim>\<open>start\<close> and \<^verbatim>\<open>prices\<close>, which only a plain object can have.\<close>

definition getProp :: "jsval \<Rightarrow> string \<Rightarrow> jsval" where
  "getProp v key =
     (case v of
        Obj ps \<Rightarrow> (case map_of ps key of None \<Rightarrow> Undefined | Some x \<Rightarrow> x)
      | _ \<Rightarrow> Undefined)"

text \<open>\<^verbatim>\<open>xs[i]\<close>: an index outside the array reads \<^verbatim>\<open>undefined\<close>.\<close>

definition index :: "jsval list \<Rightarrow> int option \<Rightarrow> jsval" where
  "index xs i =
     (case i of
        None \<Rightarrow> Undefined
      | Some k \<Rightarrow> if 0 \<le> k \<and> k < int (length xs) then xs ! nat k else Undefined)"

section \<open>js/business/timeWindows.js\<close>

definition getStartOfWeek :: "int \<Rightarrow> jsdate \<Rightarrow> jsdate" where
  "getStartOfWeek tza date =
     (let startOfWeek = date;
          day = getDay tza startOfWeek;
          diff = (case getDate tza startOfWeek of
                    None \<Rightarrow> None
                  | Some dt \<Rightarrow>
                      (case day of
                         None \<Rightarrow> None
                       | Some dy \<Rightarrow> Some (dt - dy + (if dy = 0 then - 6 else 1))));
          startOfWeek = setDate tza startOfWeek diff;
          startOfWeek = setHours tza startOfWeek 0 0 0 0
      in startOfWeek)"

definition getStartOfMonth :: "int \<Rightarrow> jsdate \<Rightarrow> jsdate" where
  "getStartOfMonth tza date =
     (let startOfMonth = newDateYMD tza (getFullYear tza date) (getMonth tza date) 1;
          startOfMonth = setHours tza startOfMonth 0 0 0 0
      in startOfMonth)"

definition getStartOfYear :: "int \<Rightarrow> jsdate \<Rightarrow> jsdate" where
  "getStartOfYear tza date =
     (let startOfYear = newDateYMD tza (getFullYear tza date) (Some 0) 1;
          startOfYear = setHours tza startOfYear 0 0 0 0
      in startOfYear)"

definition getStartOfYesterday :: "int \<Rightarrow> jsdate \<Rightarrow> jsdate" where
  "getStartOfYesterday tza date =
     (let yesterday = date;
          yesterday = setDate tza yesterday
                        (map_option (\<lambda>dt. dt - 1) (getDate tza yesterday));
          yesterday = setHours tza yesterday 0 0 0 0
      in yesterday)"

definition getCalendarStartDate :: "int \<Rightarrow> string \<Rightarrow> jsdate \<Rightarrow> error + jsdate" where
  "getCalendarStartDate tza timeWindow referenceDate =
     (if timeWindow = ''1d'' then Inr (getStartOfYesterday tza referenceDate)
      else if timeWindow = ''wtd'' then Inr (getStartOfWeek tza referenceDate)
      else if timeWindow = ''mtd'' then Inr (getStartOfMonth tza referenceDate)
      else if timeWindow = ''ytd'' then Inr (getStartOfYear tza referenceDate)
      else Inl (Error (''Invalid calendar time window: '' @ timeWindow)))"

section \<open>js/data/historicalData.js\<close>

text \<open>
  \<open>numOf v\<close> is the number that \<open>v\<close> is. The source reads a value as a number only
  behind a guard \<^verbatim>\<open>typeof v !== 'number'\<close>, so the coercion of other values is never
  reached.
\<close>

definition numOf :: "jsval \<Rightarrow> num" where
  "numOf v = (case v of Num n \<Rightarrow> n | _ \<Rightarrow> NaN)"

definition isNaN :: "jsval \<Rightarrow> bool" where
  "isNaN v = (numOf v = NaN)"

definition isArray :: "jsval \<Rightarrow> bool" where
  "isArray v = (case v of Arr xs \<Rightarrow> True | _ \<Rightarrow> False)"

definition elems :: "jsval \<Rightarrow> jsval list" where
  "elems v = (case v of Arr xs \<Rightarrow> xs | _ \<Rightarrow> [])"

definition strOf :: "jsval \<Rightarrow> string" where
  "strOf v = (case v of Str s \<Rightarrow> s | _ \<Rightarrow> [])"

fun showNat :: "nat \<Rightarrow> string" where
  "showNat n = (if n < 10 then [digit n] else showNat (n div 10) @ [digit (n mod 10)])"

declare showNat.simps [simp del]

definition parseDate :: "engine \<Rightarrow> string \<Rightarrow> error + jsdate" where
  "parseDate eng dateString =
     (let d = newDateString eng (dateString @ ''T00:00:00.000Z'') in
      if d = None then Inl (Error (''Invalid date format: '' @ dateString)) else Inr d)"

text \<open>\<^verbatim>\<open>date.toISOString().split('T')[0]\<close>: the text before the first \<^verbatim>\<open>T\<close>.\<close>

definition formatDate :: "jsdate \<Rightarrow> error + string" where
  "formatDate d =
     (case toISOString d of
        Inl e \<Rightarrow> Inl e
      | Inr s \<Rightarrow> Inr (takeWhile (\<lambda>c. c \<noteq> CHR ''T'') s))"

definition calculateDate :: "engine \<Rightarrow> string \<Rightarrow> int \<Rightarrow> error + string" where
  "calculateDate eng startDateStr daysToAdd =
     (case parseDate eng startDateStr of
        Inl e \<Rightarrow> Inl e
      | Inr d \<Rightarrow>
          formatDate (setUTCDate d (map_option (\<lambda>dt. dt + daysToAdd) (getUTCDate d))))"

record series =
  start :: string
  startDate :: jsdate
  endDate :: jsdate
  prices :: "jsval list"
  totalDays :: nat

text \<open>The arrow function that \<open>parseHistoricalData\<close> filters the prices with.\<close>

definition invalidPrice :: "jsval \<Rightarrow> bool" where
  "invalidPrice price =
     (typeOf price \<noteq> ''number'' \<or> isNaN price \<or> num_lt (numOf price) (Fin 0))"

text \<open>
  The \<^verbatim>\<open>console.log\<close> calls print and have no other effect, but the arguments of the
  last one are evaluated: it spreads the prices into \<^verbatim>\<open>Math.min\<close> and \<^verbatim>\<open>Math.max\<close>, and
  the engine throws a RangeError when the array is longer than the number of arguments it
  takes. The prices are numbers at that point, so nothing else can fail there.
\<close>

definition parseHistoricalData :: "engine \<Rightarrow> jsval \<Rightarrow> error + series" where
  "parseHistoricalData eng data =
     (if \<not> truthy data \<or> typeOf data \<noteq> ''object'' then
        Inl (Error ''Invalid historical data: must be an object'')
      else if \<not> truthy (getProp data ''start'') \<or> typeOf (getProp data ''start'') \<noteq> ''string'' then
        Inl (Error ''Invalid historical data: missing or invalid start date'')
      else if \<not> isArray (getProp data ''prices'') then
        Inl (Error ''Invalid historical data: prices must be an array'')
      else if length (elems (getProp data ''prices'')) = 0 then
        Inl (Error ''Invalid historical data: prices array is empty'')
      else
        (case parseDate eng (strOf (getProp data ''start'')) of
           Inl e \<Rightarrow> Inl e
         | Inr startDate' \<Rightarrow>
             (let invalidPrices = filter invalidPrice (elems (getProp data ''prices''))
              in if length invalidPrices > 0 then
                   Inl (Error (''Invalid historical data: found '' @ showNat (length invalidPrices)
                               @ '' invalid prices''))
                 else
                   (case calculateDate eng (strOf (getProp data ''start''))
                           (int (length (elems (getProp data ''prices''))) - 1) of
                      Inl e \<Rightarrow> Inl e
                    | Inr endDate' \<Rightarrow>
                        if length (elems (getProp data ''prices'')) > maxSpread eng then
                          Inl RangeError
                        else
                          (case parseDate eng endDate' of
                             Inl e \<Rightarrow> Inl e
                           | Inr endDate'' \<Rightarrow>
                               Inr \<lparr>start = strOf (getProp data ''start''),
                                    startDate = startDate',
                                    endDate = endDate'',
                                    prices = elems (getProp data ''prices''),
                                    totalDays = length (elems (getProp data ''prices''))\<rparr>)))))"

record priceInfo =
  date :: string
  price :: jsval

text \<open>
  The difference of two Dates is the difference of their time values, NaN when one is
  invalid. \<^verbatim>\<open>Math.floor\<close> of the quotient by the milliseconds of a day is the integer
  quotient: the double quotient is exact enough for that over the whole range of dates
  that a series of realistic length spans.
\<close>

definition floorDays :: "jsdate \<Rightarrow> jsdate \<Rightarrow> int option" where
  "floorDays a b =
     (case a of
        None \<Rightarrow> None
      | Some x \<Rightarrow> (case b of None \<Rightarrow> None | Some y \<Rightarrow> Some ((x - y) div msPerDay)))"

definition getPriceForDate :: "engine \<Rightarrow> series \<Rightarrow> jsval \<Rightarrow> error + priceInfo option" where
  "getPriceForDate eng historicalData targetDate =
     (case (case targetDate of
              DateObj d \<Rightarrow> Inr d
            | Str s \<Rightarrow> parseDate eng s
            | _ \<Rightarrow> Inl (Error ''Target date must be a string (YYYY-MM-DD) or Date object'')) of
        Inl e \<Rightarrow> Inl e
      | Inr target \<Rightarrow>
          (let daysDiff = floorDays target (startDate historicalData) in
           if (case daysDiff of
                 None \<Rightarrow> False
               | Some k \<Rightarrow> k < 0 \<or> k \<ge> int (length (prices historicalData))) then Inr None
           else
             (case formatDate target of
                Inl e \<Rightarrow> Inl e
              | Inr dateString \<Rightarrow>
                  Inr (Some \<lparr>date = dateString,
                             price = index (prices historicalData) daysDiff\<rparr>))))"

definition getLatestPrice :: "engine \<Rightarrow> series \<Rightarrow> error + priceInfo" where
  "getLatestPrice eng historicalData =
     (let latestIndex = int (length (prices historicalData)) - 1 in
      case calculateDate eng (start historicalData) latestIndex of
        Inl e \<Rightarrow> Inl e
      | Inr latestDate \<Rightarrow>
          Inr \<lparr>date = latestDate, price = index (prices historicalData) (Some latestIndex)\<rparr>)"

text \<open>The \<^verbatim>\<open>for\<close> loop of \<open>getPriceRange\<close>, with the array it fills.\<close>

function rangeLoop ::
  "engine \<Rightarrow> series \<Rightarrow> int \<Rightarrow> int \<Rightarrow> priceInfo list \<Rightarrow> error + priceInfo list" where
  "rangeLoop eng historicalData i actualEnd result =
     (if i \<le> actualEnd then
        (case calculateDate eng (start historicalData) i of
           Inl e \<Rightarrow> Inl e
         | Inr d \<Rightarrow>
             rangeLoop eng historicalData (i + 1) actualEnd
               (result @ [\<lparr>date = d, price = index (prices historicalData) (Some i)\<rparr>]))
      else Inr result)"
  by pat_completeness auto
termination
  by (relation "measure (\<lambda>(eng, h, i, actualEnd, r). nat (actualEnd + 1 - i))") auto

declare rangeLoop.simps [simp del]

definition getPriceRange ::
  "engine \<Rightarrow> series \<Rightarrow> string \<Rightarrow> string \<Rightarrow> error + priceInfo list" where
  "getPriceRange eng historicalData startDateStr endDateStr =
     (case parseDate eng startDateStr of
        Inl e \<Rightarrow> Inl e
      | Inr start' \<Rightarrow>
          (case parseDate eng endDateStr of
             Inl e \<Rightarrow> Inl e
           | Inr end' \<Rightarrow>
               if (case (start', end') of (Some s, Some e) \<Rightarrow> s > e | _ \<Rightarrow> False) then
                 Inl (Error ''Start date must be before end date'')
               else
                 (case (floorDays start' (startDate historicalData),
                        floorDays end' (startDate historicalData)) of
                    (Some startDiff, Some endDiff) \<Rightarrow>
                      (let actualStart = max 0 startDiff;
                           actualEnd = min (int (length (prices historicalData)) - 1) endDiff
                       in rangeLoop eng historicalData actualStart actualEnd [])
                  | _ \<Rightarrow> Inr [])))"

section \<open>js/business/portfolio.js\<close>

text \<open>
  \<^verbatim>\<open>Math.pow\<close> is the host's; it is the parameter \<open>pow\<close> of the functions that reach it,
  and nothing is assumed of it.
\<close>

definition calculateTotalValue :: "jsval \<Rightarrow> jsval \<Rightarrow> error + num" where
  "calculateTotalValue btcAmount currentPrice =
     (if typeOf btcAmount \<noteq> ''number'' \<or> typeOf currentPrice \<noteq> ''number'' then
        Inl (Error ''BTC amount and current price must be numbers'')
      else if num_lt (numOf btcAmount) (Fin 0) \<or> num_lt (numOf currentPrice) (Fin 0) then
        Inl (Error ''BTC amount and current price must be non-negative'')
      else Inr (num_mul (numOf btcAmount) (numOf currentPrice)))"

definition calculateAbsoluteGain :: "jsval \<Rightarrow> jsval \<Rightarrow> jsval \<Rightarrow> error + num" where
  "calculateAbsoluteGain btcAmount currentPrice purchasePrice =
     (if typeOf btcAmount \<noteq> ''number'' \<or> typeOf currentPrice \<noteq> ''number''
         \<or> typeOf purchasePrice \<noteq> ''number'' then
        Inl (Error ''All parameters must be numbers'')
      else if num_lt (numOf btcAmount) (Fin 0) \<or> num_lt (numOf currentPrice) (Fin 0)
              \<or> num_lt (numOf purchasePrice) (Fin 0) then
        Inl (Error ''All parameters must be non-negative'')
      else
        (let currentValue = num_mul (numOf btcAmount) (numOf currentPrice);
             purchaseValue = num_mul (numOf btcAmount) (numOf purchasePrice)
         in Inr (num_sub currentValue purchaseValue)))"

definition calculatePercentageGain :: "jsval \<Rightarrow> jsval \<Rightarrow> error + num" where
  "calculatePercentageGain currentPrice purchasePrice =
     (if typeOf currentPrice \<noteq> ''number'' \<or> typeOf purchasePrice \<noteq> ''number'' then
        Inl (Error ''Current price and purchase price must be numbers'')
      else if num_lt (numOf currentPrice) (Fin 0) \<or> num_le (numOf purchasePrice) (Fin 0) then
        Inl (Error ''Prices must be positive numbers'')
      else
        Inr (num_div (num_sub (numOf currentPrice) (numOf purchasePrice)) (numOf purchasePrice)))"

definition calculateCAGR ::
  "(num \<Rightarrow> num \<Rightarrow> num) \<Rightarrow> jsval \<Rightarrow> jsval \<Rightarrow> jsval \<Rightarrow> error + num" where
  "calculateCAGR pow currentPrice purchasePrice years =
     (if typeOf currentPrice \<noteq> ''number'' \<or> typeOf purchasePrice \<noteq> ''number''
         \<or> typeOf years \<noteq> ''number'' then
        Inl (Error ''All parameters must be numbers'')
      else if num_le (numOf currentPrice) (Fin 0) \<or> num_le (numOf purchasePrice) (Fin 0)
              \<or> num_le (numOf years) (Fin 0) then
        Inl (Error ''All parameters must be positive numbers'')
      else
        Inr (num_sub (pow (num_div (numOf currentPrice) (numOf purchasePrice))
                          (num_div (Fin 1) (numOf years)))
                     (Fin 1)))"

definition calculateYearsBetweenDates :: "jsval \<Rightarrow> jsval \<Rightarrow> error + num" where
  "calculateYearsBetweenDates startDate' endDate' =
     (case (startDate', endDate') of
        (DateObj s, DateObj e) \<Rightarrow>
          if (case (s, e) of (Some a, Some b) \<Rightarrow> a \<ge> b | _ \<Rightarrow> False) then
            Inl (Error ''Start date must be before end date'')
          else
            (let millisecondsDiff =
                   (case (s, e) of (Some a, Some b) \<Rightarrow> Fin (real_of_int (b - a)) | _ \<Rightarrow> NaN);
                 daysDiff = num_div millisecondsDiff (Fin (1000 * 60 * 60 * 24))
             in Inr (num_div daysDiff (Fin 365.25)))
      | _ \<Rightarrow> Inl (Error ''Both parameters must be Date objects''))"

text \<open>
  \<open>years\<close> ranges over numbers here: the comparison of the source would coerce another
  value, and that coercion is outside the model.
\<close>

definition calculateDisplayCAGR ::
  "(num \<Rightarrow> num \<Rightarrow> num) \<Rightarrow> jsval \<Rightarrow> jsval \<Rightarrow> num \<Rightarrow> error + num option" where
  "calculateDisplayCAGR pow currentPrice purchasePrice years =
     (let MIN_DAYS_FOR_CAGR = Fin 30;
          minYearsForCAGR = num_div MIN_DAYS_FOR_CAGR (Fin 365.25)
      in if num_lt years minYearsForCAGR then Inr None
         else (case calculateCAGR pow currentPrice purchasePrice (Num years) of
                 Inl e \<Rightarrow> Inl e
               | Inr c \<Rightarrow> Inr (Some c)))"

record metrics =
  totalValue :: num
  absoluteGain :: num
  percentageGain :: num
  cagr :: num
  displayCAGR :: "num option"
  years :: num
  initialValue :: num

definition calculatePortfolioMetrics ::
  "(num \<Rightarrow> num \<Rightarrow> num) \<Rightarrow> jsval \<Rightarrow> jsval \<Rightarrow> jsval \<Rightarrow> jsval \<Rightarrow> jsval \<Rightarrow> error + metrics" where
  "calculatePortfolioMetrics pow btcAmount currentPrice purchasePrice purchaseDate currentDate =
     (case calculateTotalValue btcAmount currentPrice of
        Inl e \<Rightarrow> Inl e
      | Inr totalValue' \<Rightarrow>
     (case calculateAbsoluteGain btcAmount currentPrice purchasePrice of
        Inl e \<Rightarrow> Inl e
      | Inr absoluteGain' \<Rightarrow>
     (case calculatePercentageGain currentPrice purchasePrice of
        Inl e \<Rightarrow> Inl e
      | Inr percentageGain' \<Rightarrow>
     (case calculateYearsBetweenDates purchaseDate currentDate of
        Inl e \<Rightarrow> Inl e
      | Inr years' \<Rightarrow>
     (case calculateCAGR pow currentPrice purchasePrice (Num years') of
        Inl e \<Rightarrow> Inl e
      | Inr cagr' \<Rightarrow>
     (case calculateDisplayCAGR pow currentPrice purchasePrice years' of
        Inl e \<Rightarrow> Inl e
      | Inr displayCAGR' \<Rightarrow>
          Inr \<lparr>totalValue = totalValue',
               absoluteGain = absoluteGain',
               percentageGain = percentageGain',
               cagr = cagr',
               displayCAGR = displayCAGR',
               years = years',
               initialValue = num_mul (numOf btcAmount) (numOf purchasePrice)\<rparr>))))))"

section \<open>The application coordinator (src/unnamed/part_003): the metrics of a time window\<close>

text \<open>
  The table \<open>TIME_WINDOWS\<close> of timeWindows.js. \<open>days\<close> is null for the calendar windows
  and Infinity for \<^verbatim>\<open>all\<close>.
\<close>

record windowConfig =
  days :: "num option"
  label :: string
  type :: string

definition TIME_WINDOWS :: "string \<Rightarrow> windowConfig option" where
  "TIME_WINDOWS key =
     map_of
       [(''1d'', \<lparr>days = Some (Fin 1), label = ''1 Day'', type = ''daily''\<rparr>),
        (''wtd'', \<lparr>days = None, label = ''This Week'', type = ''calendar''\<rparr>),
        (''mtd'', \<lparr>days = None, label = ''This Month'', type = ''calendar''\<rparr>),
        (''ytd'', \<lparr>days = None, label = ''This Year'', type = ''calendar''\<rparr>),
        (''7d'', \<lparr>days = Some (Fin 7), label = ''7 Days'', type = ''fixed''\<rparr>),
        (''30d'', \<lparr>days = Some (Fin 30), label = ''30 Days'', type = ''fixed''\<rparr>),
        (''3mo'', \<lparr>days = Some (Fin 90), label = ''3 Months'', type = ''fixed''\<rparr>),
        (''6mo'', \<lparr>days = Some (Fin 180), label = ''6 Months'', type = ''fixed''\<rparr>),
        (''1y'', \<lparr>days = Some (Fin 365), label = ''1 Year'', type = ''fixed''\<rparr>),
        (''5y'', \<lparr>days = Some (Fin 1825), label = ''5 Years'', type = ''fixed''\<rparr>),
        (''all'', \<lparr>days = Some PInf, label = ''All Time'', type = ''fixed''\<rparr>)]
       key"

text \<open>
  The module-level variables that \<open>updatePortfolioMetricsForTimeWindow\<close> reads. The
  amount and the current price are numbers: \<open>updateDisplay\<close> stores what
  \<open>getBtcAmountFromUrl\<close> and the price service return.
\<close>

record appState =
  globalHistoricalData :: "series option"
  globalBtcAmount :: num
  globalCurrentPrice :: num

text \<open>
  What the function leaves on the page: the error text of \<open>showMetricsError\<close>; the
  placeholders \<^verbatim>\<open>N/A*\<close> for the gains and the CAGR, beside the time held, the initial
  value and the purchase price; the metrics handed to \<open>updateMetricsDisplay\<close>; or the
  loading state of \<open>showMetricsLoading\<close>, when nothing follows it. The formatting of the
  numbers into text is not part of the model.
\<close>

datatype display =
    ShowMetricsError string
  | ShowNotAvailable num num jsval
  | ShowMetrics metrics
  | ShowLoading

text \<open>
  \<^verbatim>\<open>startDate.setDate(startDate.getDate() - windowConfig.days)\<close>, for the fixed windows.
\<close>

definition daysAgo :: "int \<Rightarrow> jsdate \<Rightarrow> num option \<Rightarrow> jsdate" where
  "daysAgo tza currentDate d =
     setDate tza currentDate
       (case d of
          Some (Fin x) \<Rightarrow> map_option (\<lambda>dt. dt - \<lfloor>x\<rfloor>) (getDate tza currentDate)
        | _ \<Rightarrow> None)"

text \<open>The last \<^verbatim>\<open>if (startPriceData) ... else ...\<close> of the function.\<close>

definition showWindowMetrics ::
  "(num \<Rightarrow> num \<Rightarrow> num) \<Rightarrow> engine \<Rightarrow> jsdate \<Rightarrow> appState \<Rightarrow> priceInfo option
     \<Rightarrow> error + display" where
  "showWindowMetrics pow eng now st startPriceData =
     (case startPriceData of
        Some spd \<Rightarrow>
          (let actualStartDate = newDateString eng (date spd) in
           case calculatePortfolioMetrics pow (Num (globalBtcAmount st))
                  (Num (globalCurrentPrice st)) (price spd) (DateObj actualStartDate)
                  (DateObj now) of
             Inl e \<Rightarrow> Inl e
           | Inr m \<Rightarrow> Inr (ShowMetrics m))
      | None \<Rightarrow> Inr (ShowMetricsError ''Insufficient data for this time window''))"

text \<open>
  The body of the \<^verbatim>\<open>try\<close> block. \<^verbatim>\<open>new Date()\<close> is the parameter \<open>now\<close>, the same at each
  of its calls.
\<close>

definition windowMetricsBody ::
  "(num \<Rightarrow> num \<Rightarrow> num) \<Rightarrow> int \<Rightarrow> engine \<Rightarrow> jsdate \<Rightarrow> appState \<Rightarrow> series \<Rightarrow> string
     \<Rightarrow> error + display" where
  "windowMetricsBody pow tza eng now st h timeWindow =
     (if timeWindow = ''all'' then
        (let purchaseDate = newDateString eng (start h) in
         case getPriceForDate eng h (DateObj purchaseDate) of
           Inl e \<Rightarrow> Inl e
         | Inr None \<Rightarrow> Inr ShowLoading
         | Inr (Some earliestPriceData) \<Rightarrow>
             (case calculatePortfolioMetrics pow (Num (globalBtcAmount st))
                     (Num (globalCurrentPrice st)) (price earliestPriceData)
                     (DateObj purchaseDate) (DateObj now) of
                Inl e \<Rightarrow> Inl e
              | Inr m \<Rightarrow> Inr (ShowMetrics m)))
      else
        (case TIME_WINDOWS timeWindow of
           None \<Rightarrow> Inl (Error (''Invalid time window: '' @ timeWindow))
         | Some windowConfig \<Rightarrow>
             (case (if type windowConfig = ''calendar'' \<or> type windowConfig = ''daily''
                    then getCalendarStartDate tza timeWindow now
                    else Inr (daysAgo tza now (days windowConfig))) of
                Inl e \<Rightarrow> Inl e
              | Inr startDate' \<Rightarrow>
                  (case getPriceForDate eng h (DateObj startDate') of
                     Inl e \<Rightarrow> Inl e
                   | Inr startPriceData \<Rightarrow>
                       (case (if timeWindow = ''1d'' then startPriceData else None) of
                          None \<Rightarrow> showWindowMetrics pow eng now st startPriceData
                        | Some spd \<Rightarrow>
                            (case getLatestPrice eng h of
                               Inl e \<Rightarrow> Inl e
                             | Inr latestHistorical \<Rightarrow>
                                 if date spd = date latestHistorical then
                                   (case calculateYearsBetweenDates
                                           (DateObj (newDateString eng (date spd))) (DateObj now) of
                                      Inl e \<Rightarrow> Inl e
                                    | Inr timeHeld \<Rightarrow>
                                        Inr (ShowNotAvailable timeHeld
                                               (num_mul (globalBtcAmount st) (numOf (price spd)))
                                               (price spd)))
                                 else showWindowMetrics pow eng now st startPriceData))))))"

definition updatePortfolioMetricsForTimeWindow ::
  "(num \<Rightarrow> num \<Rightarrow> num) \<Rightarrow> int \<Rightarrow> engine \<Rightarrow> jsdate \<Rightarrow> appState \<Rightarrow> string \<Rightarrow> display" where
  "updatePortfolioMetricsForTimeWindow pow tza eng now st timeWindow =
     (case globalHistoricalData st of
        None \<Rightarrow> ShowMetricsError ''No historical data available''
      | Some h \<Rightarrow>
          (case windowMetricsBody pow tza eng now st h timeWindow of
             Inl e \<Rightarrow> ShowMetricsError ''Unable to calculate''
           | Inr shown \<Rightarrow> shown))"

section \<open>The specification of \<open>parse\<close>, in the words of the spec\<close>


definition spec_leap_year :: "nat \<Rightarrow> bool" where
  "spec_leap_year y = (y mod 4 = 0 \<and> (y mod 100 \<noteq> 0 \<or> y mod 400 = 0))"

definition spec_days_in_month :: "nat \<Rightarrow> nat \<Rightarrow> nat" where
  "spec_days_in_month y m =
     (if m = 2 then (if spec_leap_year y then 29 else 28)
      else if m = 4 \<or> m = 6 \<or> m = 9 \<or> m = 11 then 30
      else 31)"

definition spec_calendar_date :: "string \<Rightarrow> bool" where
  "spec_calendar_date s =
     (length s = 10 \<and> s ! 4 = CHR ''-'' \<and> s ! 7 = CHR ''-''
      \<and> (case (digitsVal 0 (take 4 s), digitsVal 0 (take 2 (drop 5 s)), digitsVal 0 (drop 8 s)) of
            (Some y, Some m, Some d) \<Rightarrow>
              1 \<le> m \<and> m \<le> 12 \<and> 1 \<le> d \<and> d \<le> spec_days_in_month y m
          | _ \<Rightarrow> False))"


section \<open>Example engines and series\<close>

text \<open>
  An engine for the examples, on a host whose local time is \<open>tza\<close> milliseconds ahead of
  UTC. Its fallback parser reads the one string \<^verbatim>\<open>2024-12-14(T00:00:00.000Z\<close>, as V8 does:
  as midnight of 2024-12-14 in local time. It spreads up to 125000 arguments, which is
  of the order of V8's limit at its default stack size.
\<close>

definition sampleEngine :: "int \<Rightarrow> engine" where
  "sampleEngine tza =
     \<lparr>legacyDateParse =
        (\<lambda>s. if s = ''2024-12-14(T00:00:00.000Z'' then Some (UTC tza 1734134400000) else None),
      maxSpread = 125000\<rparr>"

text \<open>
  Three inputs and the series they parse to: the series of scenario A of the spec (three
  days from 2024-12-14); the series of the repository's test "should reproduce bug when
  historical data ends yesterday" (two days from 2024-12-14); and a series of the single
  day 2024-12-16. The scenario and the tests run at 2024-12-16T12:00Z, the time value
  1734350400000.
\<close>

abbreviation seriesA_raw :: jsval where
  "seriesA_raw \<equiv>
     Obj [(''start'', Str ''2024-12-14''),
          (''prices'', Arr [Num (Fin 52000), Num (Fin 50000), Num (Fin 45000)])]"

abbreviation seriesA :: series where
  "seriesA \<equiv>
     \<lparr>start = ''2024-12-14'', startDate = Some 1734134400000, endDate = Some 1734307200000,
      prices = [Num (Fin 52000), Num (Fin 50000), Num (Fin 45000)], totalDays = 3\<rparr>"

abbreviation seriesB_raw :: jsval where
  "seriesB_raw \<equiv>
     Obj [(''start'', Str ''2024-12-14''), (''prices'', Arr [Num (Fin 52000), Num (Fin 50000)])]"

abbreviation seriesB :: series where
  "seriesB \<equiv>
     \<lparr>start = ''2024-12-14'', startDate = Some 1734134400000, endDate = Some 1734220800000,
      prices = [Num (Fin 52000), Num (Fin 50000)], totalDays = 2\<rparr>"

abbreviation seriesC_raw :: jsval where
  "seriesC_raw \<equiv> Obj [(''start'', Str ''2024-12-16''), (''prices'', Arr [Num (Fin 50000)])]"

abbreviation seriesC :: series where
  "seriesC \<equiv>
     \<lparr>start = ''2024-12-16'', startDate = Some 1734307200000, endDate = Some 1734307200000,
      prices = [Num (Fin 50000)], totalDays = 1\<rparr>"

text \<open>
  The prices of scenario A under a start that is not of the format, and the series that
  the example engine one hour east of UTC parses it to: it starts at 2024-12-13T23:00Z.
\<close>

abbreviation seriesD_raw :: jsval where
  "seriesD_raw \<equiv>
     Obj [(''start'', Str ''2024-12-14(''),
          (''prices'', Arr [Num (Fin 52000), Num (Fin 50000), Num (Fin 45000)])]"

abbreviation seriesD :: series where
  "seriesD \<equiv>
     \<lparr>start = ''2024-12-14('', startDate = Some 1734130800000, endDate = Some 1734220800000,
      prices = [Num (Fin 52000), Num (Fin 50000), Num (Fin 45000)], totalDays = 3\<rparr>"

section \<open>Facts about the calendar\<close>

lemma yearSearch_upper: "d < DayFromYear (yearSearch d y + 1)"
proof (induction d y rule: yearSearch.induct)
  case (1 d y)
  show ?case
  proof (cases "DayFromYear (y + 1) \<le> d")
    case True
    with 1 show ?thesis by (simp add: yearSearch.simps [of d y])
  next
    case False
    then show ?thesis by (simp add: yearSearch.simps [of d y])
  qed
qed

lemma yearSearch_lower: "DayFromYear y \<le> d \<Longrightarrow> DayFromYear (yearSearch d y) \<le> d"
proof (induction d y rule: yearSearch.induct)
  case (1 d y)
  show ?case
  proof (cases "DayFromYear (y + 1) \<le> d")
    case True
    with 1 show ?thesis by (simp add: yearSearch.simps [of d y])
  next
    case False
    with 1 show ?thesis by (simp add: yearSearch.simps [of d y])
  qed
qed

lemma DayFromYear_add:
  "DayFromYear y + 365 * int n \<le> DayFromYear (y + int n) \<and>
   DayFromYear (y + int n) \<le> DayFromYear y + 366 * int n"
proof (induction n)
  case 0
  show ?case by simp
next
  case (Suc n)
  have "y + int (Suc n) = y + int n + 1" by simp
  then have "DayFromYear (y + int (Suc n)) = DayFromYear (y + int n) + DaysInYear (y + int n)"
    by (simp only: DayFromYear_step)
  with Suc DaysInYear_bounds [of "y + int n"] show ?case by simp
qed

lemma DayFromYear_1970: "DayFromYear 1970 = 0"
  by (simp add: DayFromYear_def)

lemma estimate_lower:
  "DayFromYear (if 0 \<le> d then 1970 + d div 366 else 1970 + d div 365) \<le> d"
proof (cases "0 \<le> d")
  case True
  then have k: "0 \<le> d div 366" by simp
  have "DayFromYear (1970 + int (nat (d div 366))) \<le> DayFromYear 1970 + 366 * int (nat (d div 366))"
    using DayFromYear_add [of 1970 "nat (d div 366)"] by blast
  with k have "DayFromYear (1970 + d div 366) \<le> 366 * (d div 366)"
    by (simp add: DayFromYear_1970)
  moreover have "366 * (d div 366) \<le> d" by simp
  ultimately show ?thesis using True by simp
next
  case False
  then have k: "d div 365 < 0" by simp
  define n where "n = nat (- (d div 365))"
  have n: "int n = - (d div 365)" using k by (simp add: n_def)
  have "DayFromYear (1970 + d div 365) + 365 * int n \<le> DayFromYear (1970 + d div 365 + int n)"
    using DayFromYear_add [of "1970 + d div 365" n] by blast
  then have "DayFromYear (1970 + d div 365) \<le> 365 * (d div 365)"
    by (simp add: n DayFromYear_1970)
  moreover have "365 * (d div 365) \<le> d" by simp
  ultimately show ?thesis using False by simp
qed

lemma YearFromDay_bounds:
  "DayFromYear (YearFromDay d) \<le> d" "d < DayFromYear (YearFromDay d + 1)"
  unfolding YearFromDay_def
  by (rule yearSearch_lower [OF estimate_lower]) (rule yearSearch_upper)

lemma DayWithinYear_bounds:
  "0 \<le> DayWithinYear t" "DayWithinYear t < DaysInYear (YearFromTime t)"
  using YearFromDay_bounds [of "Day t"] DayFromYear_step [of "YearFromTime t"]
  by (simp_all add: DayWithinYear_def YearFromTime_def)

lemma InLeapYear_cases: "InLeapYear t = 0 \<and> DaysInYear (YearFromTime t) = 365 \<or> InLeapYear t = 1 \<and> DaysInYear (YearFromTime t) = 366"
  by (simp add: InLeapYear_def DaysInYear_def)

lemma MonthFromTime_range: "0 \<le> MonthFromTime t" "MonthFromTime t \<le> 11"
  by (simp_all add: MonthFromTime_def Let_def)

lemma DateFromTime_eq:
  "DateFromTime t = DayWithinYear t - monthStart (InLeapYear t) (MonthFromTime t) + 1"
  by (simp add: DateFromTime_def monthStart_def Let_def)

lemma DateFromTime_range: "1 \<le> DateFromTime t" "DateFromTime t \<le> 31"
  using DayWithinYear_bounds [of t] InLeapYear_cases [of t]
  by (auto simp add: DateFromTime_def MonthFromTime_def Let_def split: if_splits)

lemma MakeDay_YearMonth:
  "MakeDay (YearFromTime t) (MonthFromTime t) dt = Day t - DateFromTime t + dt"
proof -
  have "MonthFromTime t div 12 = 0" "MonthFromTime t mod 12 = MonthFromTime t"
    using MonthFromTime_range [of t] by simp_all
  then show ?thesis
    by (simp add: MakeDay_def DateFromTime_eq InLeapYear_def DayWithinYear_def)
qed

lemma Day_MakeDate: "0 \<le> tm \<Longrightarrow> tm < msPerDay \<Longrightarrow> Day (MakeDate d tm) = d"
  by (simp add: Day_def MakeDate_def msPerDay_def)

lemma MakeDate_Day: "MakeDate (Day t) (TimeWithinDay t) = t"
  by (simp add: Day_def MakeDate_def TimeWithinDay_def)

lemma Day_shift: "Day (t + k * msPerDay) = Day t + k"
  by (simp add: Day_def msPerDay_def)

lemma TimeWithinDay_shift: "TimeWithinDay (t + k * msPerDay) = TimeWithinDay t"
  by (simp add: TimeWithinDay_def msPerDay_def)

lemma Day_le: "Day t * msPerDay \<le> t"
  by (simp add: Day_def msPerDay_def)

lemma getStartOfYesterday_eq:
  assumes "\<bar>now\<bar> \<le> maxTime"
    and "- maxTime \<le> MakeDate (Day (LocalTime tza now) - 1) 0 - tza"
  shows "getStartOfYesterday tza (Some now) =
           Some (UTC tza (MakeDate (Day (LocalTime tza now) - 1) 0))"
proof -
  define lt where "lt = LocalTime tza now"
  have le: "Day lt * msPerDay \<le> lt" by (rule Day_le)
  have lt: "lt = now + tza" by (simp add: lt_def LocalTime_def)
  have "MakeDate (MakeDay (YearFromTime lt) (MonthFromTime lt) (DateFromTime lt - 1))
          (TimeWithinDay lt) = MakeDate (Day lt - 1) (TimeWithinDay lt)"
    by (simp add: MakeDay_YearMonth)
  also have "\<dots> = lt - msPerDay"
    using MakeDate_Day [of lt] by (simp add: MakeDate_def algebra_simps)
  finally have nd: "MakeDate (MakeDay (YearFromTime lt) (MonthFromTime lt) (DateFromTime lt - 1))
          (TimeWithinDay lt) = lt - msPerDay" .
  have r1: "\<bar>now - msPerDay\<bar> \<le> maxTime"
    using assms le by (simp add: lt lt_def [symmetric] MakeDate_def msPerDay_def algebra_simps)
  have s1: "setDate tza (Some now) (map_option (\<lambda>dt. dt - 1) (getDate tza (Some now)))
              = Some (now - msPerDay)"
    using r1 nd [unfolded lt]
    by (simp add: setDate_def getDate_def LocalTime_def Let_def TimeClip_def UTC_def)
  have d2: "Day (LocalTime tza (now - msPerDay)) = Day lt - 1"
  proof -
    have "now - msPerDay + tza = lt + (- 1) * msPerDay" by (simp add: lt)
    then show ?thesis by (simp only: LocalTime_def Day_shift)
  qed
  have r2: "\<bar>MakeDate (Day lt - 1) 0 - tza\<bar> \<le> maxTime"
    using assms le by (simp add: lt lt_def [symmetric] MakeDate_def msPerDay_def algebra_simps)
  show ?thesis
    using r2 by (simp add: getStartOfYesterday_def s1 setHours_def d2 MakeTime_def TimeClip_def
        UTC_def lt_def [symmetric])
qed

text \<open>
  The "1d" window in general, on a host whose local time is a fixed \<open>tza\<close> milliseconds
  ahead of UTC: it starts at local midnight of the local calendar day before the local
  calendar day of \<open>now\<close>, when that instant is a time value. On a host on UTC this is
  00:00 UTC of the UTC day before the UTC day of \<open>now\<close>.
\<close>

lemma one_day_window_is_local_midnight:
  assumes "\<bar>now\<bar> \<le> maxTime"
    and "- maxTime \<le> MakeDate (Day (LocalTime tza now) - 1) 0 - tza"
  shows "getCalendarStartDate tza ''1d'' (Some now) =
           Inr (Some (UTC tza (MakeDate (Day (LocalTime tza now) - 1) 0)))"
    and "tza = 0 \<Longrightarrow>
           getCalendarStartDate tza ''1d'' (Some now) = Inr (Some (MakeDate (Day now - 1) 0))"
proof -
  show a: "getCalendarStartDate tza ''1d'' (Some now) =
           Inr (Some (UTC tza (MakeDate (Day (LocalTime tza now) - 1) 0)))"
    using getStartOfYesterday_eq [OF assms] by (simp add: getCalendarStartDate_def)
  show "getCalendarStartDate tza ''1d'' (Some now) = Inr (Some (MakeDate (Day now - 1) 0))"
    if "tza = 0"
    using a that by (simp add: UTC_def LocalTime_def)
qed

section \<open>Facts about the portfolio functions\<close>

lemma num_le_Fin0: "num_le n (Fin 0) \<longleftrightarrow> (\<exists>x. n = Fin x \<and> x \<le> 0) \<or> n = NInf"
  by (cases n) auto

lemma num_lt_Fin0: "num_lt n (Fin 0) \<longleftrightarrow> (\<exists>x. n = Fin x \<and> x < 0) \<or> n = NInf"
  by (cases n) auto

lemma num_lt_imp_le: "num_lt n (Fin 0) \<Longrightarrow> num_le n (Fin 0)"
  by (cases n) auto

lemma typeOf_Num [simp]: "typeOf (Num n) = ''number''"
  by (simp add: typeOf_def)

lemma numOf_Num [simp]: "numOf (Num n) = n"
  by (simp add: numOf_def)

lemma years_value:
  "calculateYearsBetweenDates (DateObj s) (DateObj e) =
     (if (case (s, e) of (Some a, Some b) \<Rightarrow> a \<ge> b | _ \<Rightarrow> False)
      then Inl (Error ''Start date must be before end date'')
      else Inr (case (s, e) of
                  (Some a, Some b) \<Rightarrow> Fin (real_of_int (b - a) / 86400000 / 365.25)
                | _ \<Rightarrow> NaN))"
  by (simp add: calculateYearsBetweenDates_def split: option.splits)

lemma years_not_le0:
  "calculateYearsBetweenDates (DateObj s) (DateObj e) = Inr y \<Longrightarrow> \<not> num_le y (Fin 0)"
  by (auto simp add: years_value split: if_splits option.splits)

lemma CAGR_isl:
  "isl (calculateCAGR pow (Num c) (Num p) (Num y)) \<longleftrightarrow>
     num_le c (Fin 0) \<or> num_le p (Fin 0) \<or> num_le y (Fin 0)"
  by (simp add: calculateCAGR_def)

lemma displayCAGR_value:
  "calculateDisplayCAGR pow c p y =
     (if num_lt y (num_div (Fin 30) (Fin 365.25)) then Inr None
      else map_sum id Some (calculateCAGR pow c p (Num y)))"
  by (simp add: calculateDisplayCAGR_def split: sum.splits)

lemma metrics_value:
  assumes "\<not> num_lt a (Fin 0)" "\<not> num_le c (Fin 0)" "\<not> num_le p (Fin 0)"
    and "calculateYearsBetweenDates (DateObj s) (DateObj e) = Inr y"
  shows "calculatePortfolioMetrics pow (Num a) (Num c) (Num p) (DateObj s) (DateObj e) =
     Inr \<lparr>totalValue = num_mul a c,
          absoluteGain = num_sub (num_mul a c) (num_mul a p),
          percentageGain = num_div (num_sub c p) p,
          cagr = num_sub (pow (num_div c p) (num_div (Fin 1) y)) (Fin 1),
          displayCAGR = (if num_lt y (num_div (Fin 30) (Fin 365.25)) then None
                         else Some (num_sub (pow (num_div c p) (num_div (Fin 1) y)) (Fin 1))),
          years = y,
          initialValue = num_mul a p\<rparr>"
proof -
  have c: "\<not> num_lt c (Fin 0)" and p: "\<not> num_lt p (Fin 0)"
    using assms(2,3) num_lt_imp_le by blast+
  have y: "\<not> num_le y (Fin 0)" using assms(4) by (rule years_not_le0)
  show ?thesis
    using assms c p y
    by (simp add: calculatePortfolioMetrics_def calculateTotalValue_def calculateAbsoluteGain_def
        calculatePercentageGain_def calculateCAGR_def displayCAGR_value Let_def)
qed

lemma metrics_isl:
  "isl (calculatePortfolioMetrics pow (Num a) (Num c) (Num p) (DateObj s) (DateObj e)) \<longleftrightarrow>
     num_lt a (Fin 0) \<or> num_le c (Fin 0) \<or> num_le p (Fin 0)
     \<or> (case (s, e) of (Some x, Some y) \<Rightarrow> x \<ge> y | _ \<Rightarrow> False)"
proof (cases "num_lt a (Fin 0) \<or> num_le c (Fin 0) \<or> num_le p (Fin 0)
     \<or> (case (s, e) of (Some x, Some y) \<Rightarrow> x \<ge> y | _ \<Rightarrow> False)")
  case False
  then obtain y where "calculateYearsBetweenDates (DateObj s) (DateObj e) = Inr y"
    by (auto simp add: years_value)
  with False show ?thesis by (simp add: metrics_value)
next
  case True
  have "isl (calculatePortfolioMetrics pow (Num a) (Num c) (Num p) (DateObj s) (DateObj e))"
  proof (cases "calculateYearsBetweenDates (DateObj s) (DateObj e)")
    case (Inl err)
    then show ?thesis
      by (simp add: calculatePortfolioMetrics_def split: sum.splits)
  next
    case (Inr y)
    then have "\<not> (case (s, e) of (Some x, Some y) \<Rightarrow> x \<ge> y | _ \<Rightarrow> False)"
      by (auto simp add: years_value split: if_splits)
    with True have t: "num_lt a (Fin 0) \<or> num_le c (Fin 0) \<or> num_le p (Fin 0)" by blast
    show ?thesis
      using t num_lt_imp_le [of c] num_lt_imp_le [of p]
      by (auto simp add: calculatePortfolioMetrics_def calculateTotalValue_def
          calculateAbsoluteGain_def calculatePercentageGain_def calculateCAGR_def Inr
          split: sum.splits)
  qed
  with True show ?thesis by simp
qed

lemma num_le_not_lt: "num_le a b \<Longrightarrow> \<not> num_lt b a"
  by (cases a; cases b) auto

section \<open>Facts about date strings\<close>

lemma digit_cases:
  fixes n :: nat
  assumes "n < 10"
  shows "n = 9 \<or> n = 8 \<or> n = 7 \<or> n = 6 \<or> n = 5 \<or> n = 4 \<or> n = 3 \<or> n = 2 \<or> n = 1 \<or> n = 0"
  using assms by arith

lemma digitVal_digit: "n < 10 \<Longrightarrow> digitVal (digit n) = Some n"
  using digit_cases [of n] by (auto simp add: digit_def digitVal_def)

lemma digit_mod10 [simp]: "digitVal (digit (n mod 10)) = Some (n mod 10)"
  by (rule digitVal_digit) simp

lemma digit_not_sign [simp]:
  "digit (n mod 10) \<noteq> CHR ''T''" "digit (n mod 10) \<noteq> CHR ''+''" "digit (n mod 10) \<noteq> CHR ''-''"
  "CHR ''T'' \<noteq> digit (n mod 10)" "CHR ''+'' \<noteq> digit (n mod 10)" "CHR ''-'' \<noteq> digit (n mod 10)"
proof -
  have "digitVal (digit (n mod 10)) \<noteq> None" by simp
  moreover have "digitVal CHR ''T'' = None" "digitVal CHR ''+'' = None" "digitVal CHR ''-'' = None"
    by (simp_all add: digitVal_def)
  ultimately show "digit (n mod 10) \<noteq> CHR ''T''" "digit (n mod 10) \<noteq> CHR ''+''"
    "digit (n mod 10) \<noteq> CHR ''-''"
    "CHR ''T'' \<noteq> digit (n mod 10)" "CHR ''+'' \<noteq> digit (n mod 10)" "CHR ''-'' \<noteq> digit (n mod 10)"
    by metis+
qed

lemma pad_noT:
  "CHR ''T'' \<notin> set (pad2 n)" "CHR ''T'' \<notin> set (pad3 n)" "CHR ''T'' \<notin> set (pad4 n)"
  "CHR ''T'' \<notin> set (pad6 n)"
  by (simp_all add: pad6_def pad4_def pad3_def pad2_def)

lemma yearString_noT: "CHR ''T'' \<notin> set (yearString y)"
  by (simp add: yearString_def pad_noT)

lemma isoDate_noT: "CHR ''T'' \<notin> set (isoDate t)"
  by (simp add: isoDate_def yearString_noT pad_noT)

lemma formatDate_Some: "formatDate (Some t) = Inr (isoDate t)"
proof -
  have "\<forall>x\<in>set (isoDate t). x \<noteq> CHR ''T''"
    using isoDate_noT [of t] by auto
  then have "takeWhile (\<lambda>c. c \<noteq> CHR ''T'') (isoDate t @ ''T'' @ isoTime t @ ''Z'') = isoDate t"
    by (simp add: takeWhile_append)
  then show ?thesis by (simp add: formatDate_def toISOString_def)
qed

lemma formatDate_None: "formatDate None = Inl RangeError"
  by (simp add: formatDate_def toISOString_def)

lemma isoDate_Day: "Day t = Day t' \<Longrightarrow> isoDate t = isoDate t'"
  by (simp add: isoDate_def YearFromTime_def MonthFromTime_def DateFromTime_def
      DayWithinYear_def InLeapYear_def)

lemma parseISOTime_midnight: "parseISOTime ''T00:00:00.000Z'' = Some 0"
  by (simp add: parseISOTime_def digitVal_def MakeTime_def)

lemma parseISOTime_long: "14 < length r \<Longrightarrow> parseISOTime r = None"
  by (simp add: parseISOTime_def)

lemma isoDateTime_suffix:
  "isoDateTime (s @ ''T00:00:00.000Z'') =
     (if CHR ''T'' \<in> set s then None
      else case parseISODate s of
             None \<Rightarrow> None
           | Some (y, m, dt) \<Rightarrow> Some (MakeDate (MakeDay y (m - 1) dt) 0))"
proof (cases "CHR ''T'' \<in> set s")
  case True
  then have d: "dropWhile (\<lambda>c. c \<noteq> CHR ''T'') (s @ ''T00:00:00.000Z'')
      = dropWhile (\<lambda>c. c \<noteq> CHR ''T'') s @ ''T00:00:00.000Z''"
    by simp
  have "dropWhile (\<lambda>c. c \<noteq> CHR ''T'') s \<noteq> []"
    using True by simp
  then have "14 < length (dropWhile (\<lambda>c. c \<noteq> CHR ''T'') s @ ''T00:00:00.000Z'')"
    by (cases "dropWhile (\<lambda>c. c \<noteq> CHR ''T'') s") simp_all
  then have "parseISOTime (dropWhile (\<lambda>c. c \<noteq> CHR ''T'') s @ ''T00:00:00.000Z'') = None"
    by (rule parseISOTime_long)
  then show ?thesis
    using True by (simp add: isoDateTime_def d Let_def split: option.splits)
next
  case False
  then have "\<forall>x\<in>set s. x \<noteq> CHR ''T''" by auto
  then have t: "takeWhile (\<lambda>c. c \<noteq> CHR ''T'') (s @ ''T00:00:00.000Z'') = s"
    and d: "dropWhile (\<lambda>c. c \<noteq> CHR ''T'') (s @ ''T00:00:00.000Z'') = ''T00:00:00.000Z''"
    by (simp_all add: takeWhile_append dropWhile_append)
  show ?thesis
    using False by (simp add: isoDateTime_def t d Let_def parseISOTime_midnight
        split: option.splits)
qed

lemma digitsVal_noT: "digitsVal a s = Some v \<Longrightarrow> CHR ''T'' \<notin> set s"
proof (induction s arbitrary: a)
  case (Cons c cs)
  have "digitVal CHR ''T'' = None" by (simp add: digitVal_def)
  with Cons show ?case by (auto split: option.splits)
qed simp

lemma parseYear_noT:
  assumes "parseYear s = Some y"
  shows "CHR ''T'' \<notin> set s"
proof (cases "length s = 4")
  case True
  with assms obtain v where "digitsVal 0 s = Some v" by (auto simp add: parseYear_def)
  then show ?thesis by (rule digitsVal_noT)
next
  case False
  with assms have l: "length s = 7" and h: "hd s = CHR ''+'' \<or> hd s = CHR ''-''"
    by (auto simp add: parseYear_def split: if_splits)
  with assms False obtain v where v: "digitsVal 0 (tl s) = Some v"
    by (auto simp add: parseYear_def split: if_splits option.splits)
  from l have "s = hd s # tl s" by (cases s) simp_all
  then have "set s = insert (hd s) (set (tl s))" by (metis list.simps(15))
  with h digitsVal_noT [OF v] show ?thesis by auto
qed

lemma parseField_noT:
  assumes "parseField s lo hi = Some v"
  shows "CHR ''T'' \<notin> set s"
proof -
  from assms have l: "length s = 3" and h: "hd s = CHR ''-''"
    by (auto simp add: parseField_def split: if_splits)
  with assms obtain w where w: "digitsVal 0 (tl s) = Some w"
    by (auto simp add: parseField_def split: if_splits option.splits)
  from l have "s = hd s # tl s" by (cases s) simp_all
  then have "set s = insert (hd s) (set (tl s))" by (metis list.simps(15))
  with h digitsVal_noT [OF w] show ?thesis by auto
qed

lemma parseISODate_noT:
  assumes "parseISODate s = Some x"
  shows "CHR ''T'' \<notin> set s"
proof -
  define n :: nat where
    "n = (if s \<noteq> [] \<and> (hd s = CHR ''+'' \<or> hd s = CHR ''-'') then 7 else 4)"
  define r where "r = drop n s"
  have p: "parseISODate s =
     (case parseYear (take n s) of
        None \<Rightarrow> None
      | Some y \<Rightarrow>
          if r = [] then Some (y, 1, 1)
          else (case parseField (take 3 r) 1 12 of
                  None \<Rightarrow> None
                | Some m \<Rightarrow>
                    if drop 3 r = [] then Some (y, m, 1)
                    else if length r = 6 then
                      (case parseField (drop 3 r) 1 31 of
                         None \<Rightarrow> None
                       | Some d \<Rightarrow> Some (y, m, d))
                    else None))"
    unfolding parseISODate_def n_def r_def Let_def ..
  from assms obtain y where y: "parseYear (take n s) = Some y"
    unfolding p by (auto split: option.splits)
  have r: "CHR ''T'' \<notin> set r"
  proof (cases "r = []")
    case False
    with assms y obtain m where m: "parseField (take 3 r) 1 12 = Some m"
      unfolding p by (auto split: option.splits)
    show ?thesis
    proof (cases "drop 3 r = []")
      case True
      have "take 3 r @ drop 3 r = r" by (rule append_take_drop_id)
      with True have "take 3 r = r" by simp
      with parseField_noT [OF m] show ?thesis by simp
    next
      case d: False
      with assms y m False obtain d where "parseField (drop 3 r) 1 31 = Some d"
        unfolding p by (auto split: option.splits if_splits)
      moreover have "set r = set (take 3 r) \<union> set (drop 3 r)"
        using set_append [of "take 3 r" "drop 3 r"] by simp
      ultimately show ?thesis using parseField_noT [OF m] parseField_noT by blast
    qed
  qed simp
  have "set s = set (take n s) \<union> set (drop n s)"
    using set_append [of "take n s" "drop n s"] by simp
  with parseYear_noT [OF y] r show ?thesis by (simp add: r_def)
qed

lemma newDateString_iso:
  assumes "parseISODate s = Some (y, m, dt)"
  shows "newDateString eng (s @ ''T00:00:00.000Z'')
     = TimeClip (MakeDate (MakeDay y (m - 1) dt) 0)"
  using parseISODate_noT [OF assms] by (simp add: newDateString_def isoDateTime_suffix assms)

lemma newDateString_range: "newDateString eng s = Some t \<Longrightarrow> \<bar>t\<bar> \<le> maxTime"
  by (auto simp add: newDateString_def TimeClip_def split: option.splits if_splits)

lemma parseDate_value:
  "parseDate eng s =
     (case newDateString eng (s @ ''T00:00:00.000Z'') of
        None \<Rightarrow> Inl (Error (''Invalid date format: '' @ s))
      | Some t \<Rightarrow> Inr (Some t))"
  by (simp add: parseDate_def Let_def split: option.splits)

lemma parseDate_Some:
  assumes "parseDate eng s = Inr d"
  shows "\<exists>t. d = Some t \<and> \<bar>t\<bar> \<le> maxTime"
proof -
  from assms obtain t where t: "newDateString eng (s @ ''T00:00:00.000Z'') = Some t" "d = Some t"
    by (auto simp add: parseDate_value split: option.splits)
  from newDateString_range [OF t(1)] t(2) show ?thesis by simp
qed

lemma parseDate_engine: "isISODate s \<Longrightarrow> parseDate eng s = parseDate eng' s"
  by (auto simp add: isISODate_def parseDate_value newDateString_iso)

lemma parseDate_midnight:
  assumes "isISODate s" "parseDate eng s = Inr d"
  shows "\<exists>k. d = Some (k * msPerDay) \<and> \<bar>k * msPerDay\<bar> \<le> maxTime"
proof -
  from assms(1) obtain y m dt where "parseISODate s = Some (y, m, dt)"
    by (auto simp add: isISODate_def)
  from newDateString_iso [OF this, of eng] assms(2) show ?thesis
    by (auto simp add: parseDate_value TimeClip_def MakeDate_def split: if_splits)
qed

lemma parseDate_Inl: "parseDate eng s = Inl e \<Longrightarrow> e = Error (''Invalid date format: '' @ s)"
  by (auto simp add: parseDate_def Let_def split: if_splits)

lemma Day_mult [simp]: "Day (k * msPerDay) = k"
  by (simp add: Day_def msPerDay_def)

lemma TimeWithinDay_mult [simp]: "TimeWithinDay (k * msPerDay) = 0"
  by (simp add: TimeWithinDay_def msPerDay_def)

lemma setUTCDate_add:
  "setUTCDate (Some t) (map_option (\<lambda>dt. dt + i) (getUTCDate (Some t)))
     = TimeClip (t + i * msPerDay)"
proof -
  have "MakeDate (Day t + i) (TimeWithinDay t) = t + i * msPerDay"
    using MakeDate_Day [of t] by (simp add: MakeDate_def algebra_simps)
  then show ?thesis
    by (simp add: setUTCDate_def getUTCDate_def MakeDay_YearMonth)
qed

lemma calculateDate_eq:
  assumes "parseDate eng s = Inr (Some t0)"
  shows "calculateDate eng s i =
     (if \<bar>t0 + i * msPerDay\<bar> \<le> maxTime then Inr (isoDate (t0 + i * msPerDay))
      else Inl RangeError)"
  by (simp add: calculateDate_def assms setUTCDate_add TimeClip_def formatDate_Some
      formatDate_None)

lemma DayFromYear_mono: "y \<le> y' \<Longrightarrow> DayFromYear y \<le> DayFromYear y'"
  using DayFromYear_add [of y "nat (y' - y)"] by simp

lemma Day_range: "\<bar>t\<bar> \<le> maxTime \<Longrightarrow> - 100000000 \<le> Day t \<and> Day t \<le> 100000000"
  by (simp add: Day_def maxTime_def msPerDay_def) linarith

lemma YearFromTime_range:
  assumes "\<bar>t\<bar> \<le> maxTime"
  shows "- 271821 \<le> YearFromTime t" "YearFromTime t \<le> 275760"
proof -
  have b: "DayFromYear (YearFromTime t) \<le> Day t" "Day t < DayFromYear (YearFromTime t + 1)"
    using YearFromDay_bounds [of "Day t"] by (simp_all add: YearFromTime_def)
  have hi: "100000000 < DayFromYear 275761" and lo: "DayFromYear (- 271821) \<le> - 100000000"
    by (simp_all add: DayFromYear_def)
  show "YearFromTime t \<le> 275760"
  proof (rule ccontr)
    assume "\<not> YearFromTime t \<le> 275760"
    then have "DayFromYear 275761 \<le> DayFromYear (YearFromTime t)"
      by (intro DayFromYear_mono) simp
    with b hi Day_range [OF assms] show False by linarith
  qed
  show "- 271821 \<le> YearFromTime t"
  proof (rule ccontr)
    assume "\<not> - 271821 \<le> YearFromTime t"
    then have "DayFromYear (YearFromTime t + 1) \<le> DayFromYear (- 271821)"
      by (intro DayFromYear_mono) simp
    with b lo Day_range [OF assms] show False by linarith
  qed
qed

lemma digitsVal_pad2: "digitsVal a (pad2 n) = Some (100 * a + n mod 100)"
proof -
  have "n mod (10 * 10) = 10 * (n div 10 mod 10) + n mod 10" by (rule mod_mult2_eq)
  then show ?thesis by (simp add: pad2_def)
qed

lemma digitsVal_pad3: "digitsVal a (pad3 n) = Some (1000 * a + n mod 1000)"
proof -
  have "n mod (100 * 10) = 100 * (n div 100 mod 10) + n mod 100" by (rule mod_mult2_eq)
  then show ?thesis by (simp add: pad3_def digitsVal_pad2)
qed

lemma digitsVal_pad4: "digitsVal a (pad4 n) = Some (10000 * a + n mod 10000)"
proof -
  have "n mod (1000 * 10) = 1000 * (n div 1000 mod 10) + n mod 1000" by (rule mod_mult2_eq)
  then show ?thesis by (simp add: pad4_def digitsVal_pad3)
qed

lemma digitsVal_pad6: "digitsVal a (pad6 n) = Some (1000000 * a + n mod 1000000)"
proof -
  have "n mod (10000 * 10) = 10000 * (n div 10000 mod 10) + n mod 10000" by (rule mod_mult2_eq)
  moreover have "n mod (100000 * 10) = 100000 * (n div 100000 mod 10) + n mod 100000"
    by (rule mod_mult2_eq)
  ultimately show ?thesis by (simp add: pad6_def digitsVal_pad4)
qed

lemma pad_length [simp]:
  "length (pad2 n) = 2" "length (pad3 n) = 3" "length (pad4 n) = 4" "length (pad6 n) = 6"
  by (simp_all add: pad6_def pad4_def pad3_def pad2_def)

lemma yearString_length:
  "length (yearString y) = (if 0 \<le> y \<and> y \<le> 9999 then 4 else 7)"
  by (simp add: yearString_def)

lemma yearString_hd:
  "yearString y \<noteq> [] \<and>
   (hd (yearString y) = CHR ''+'' \<or> hd (yearString y) = CHR ''-'') = (\<not> (0 \<le> y \<and> y \<le> 9999))"
  by (simp add: yearString_def pad4_def)

lemma parseYear_yearString:
  assumes "- 999999 \<le> y" "y \<le> 999999"
  shows "parseYear (yearString y) = Some y"
proof (cases "0 \<le> y \<and> y \<le> 9999")
  case True
  then have "nat y < 10000" by linarith
  then have "nat y mod 10000 = nat y" by simp
  then show ?thesis
    using True by (simp add: parseYear_def yearString_def digitsVal_pad4)
next
  case False
  have "nat \<bar>y\<bar> < 1000000" using assms by linarith
  then have "nat \<bar>y\<bar> mod 1000000 = nat \<bar>y\<bar>" by simp
  then show ?thesis
    using False assms by (auto simp add: parseYear_def yearString_def digitsVal_pad6)
qed

lemma parseISODate_isoDate:
  assumes "\<bar>t\<bar> \<le> maxTime"
  shows "parseISODate (isoDate t) = Some (YearFromTime t, MonthFromTime t + 1, DateFromTime t)"
proof -
  define Y where "Y = YearFromTime t"
  define M where "M = nat (MonthFromTime t + 1)"
  define D where "D = nat (DateFromTime t)"
  have M: "1 \<le> M" "M \<le> 12" "int M = MonthFromTime t + 1"
    using MonthFromTime_range [of t] by (simp_all add: M_def)
  have D: "1 \<le> D" "D \<le> 31" "int D = DateFromTime t"
    using DateFromTime_range [of t] by (simp_all add: D_def)
  have Y: "parseYear (yearString Y) = Some Y"
    using YearFromTime_range [OF assms] by (intro parseYear_yearString) (simp_all add: Y_def)
  have s: "isoDate t = yearString Y @ (CHR ''-'' # pad2 M @ CHR ''-'' # pad2 D)"
    by (simp add: isoDate_def Y_def M_def D_def)
  have n: "(if isoDate t \<noteq> [] \<and> (hd (isoDate t) = CHR ''+'' \<or> hd (isoDate t) = CHR ''-'')
            then 7 else 4) = length (yearString Y)"
    using yearString_hd [of Y] by (simp add: s yearString_length)
  have fm: "parseField (CHR ''-'' # pad2 M) (Suc 0) 12 = Some (int M)"
    using M by (simp add: parseField_def digitsVal_pad2)
  have fd: "parseField (CHR ''-'' # pad2 D) (Suc 0) 31 = Some (int D)"
    using D by (simp add: parseField_def digitsVal_pad2)
  have r3: "take 3 (CHR ''-'' # pad2 M @ CHR ''-'' # pad2 D) = CHR ''-'' # pad2 M"
    "drop 3 (CHR ''-'' # pad2 M @ CHR ''-'' # pad2 D) = CHR ''-'' # pad2 D"
    by (simp_all add: pad2_def)
  have "parseISODate (isoDate t) = Some (Y, int M, int D)"
    unfolding parseISODate_def n
    by (simp add: s Let_def Y r3 fm fd)
  then show ?thesis by (simp add: M D Y_def)
qed

lemma isISODate_isoDate: "\<bar>t\<bar> \<le> maxTime \<Longrightarrow> isISODate (isoDate t)"
  by (simp add: isISODate_def parseISODate_isoDate)

lemma parseDate_isoDate:
  assumes "\<bar>t\<bar> \<le> maxTime"
  shows "parseDate eng (isoDate t) = Inr (Some (Day t * msPerDay))"
proof -
  have "\<bar>Day t * msPerDay\<bar> \<le> maxTime"
    using Day_range [OF assms] by (simp add: maxTime_def msPerDay_def abs_le_iff)
  then show ?thesis
    by (simp add: parseDate_value newDateString_iso [OF parseISODate_isoDate [OF assms]]
        MakeDay_YearMonth MakeDate_def TimeClip_def)
qed

section \<open>Facts about calendar dates\<close>

lemma YearFromDay_unique:
  assumes "DayFromYear y \<le> d" "d < DayFromYear (y + 1)"
  shows "YearFromDay d = y"
proof (rule ccontr)
  assume n: "YearFromDay d \<noteq> y"
  note b = YearFromDay_bounds [of d]
  show False
  proof (cases "YearFromDay d < y")
    case True
    then have "DayFromYear (YearFromDay d + 1) \<le> DayFromYear y"
      by (intro DayFromYear_mono) simp
    with b assms show False by linarith
  next
    case False
    with n have "DayFromYear (y + 1) \<le> DayFromYear (YearFromDay d)"
      by (intro DayFromYear_mono) simp
    with b assms show False by linarith
  qed
qed

lemma spec_leap_year_iff: "spec_leap_year y \<longleftrightarrow> DaysInYear (int y) = 366"
proof -
  have "int y mod 4 = int (y mod 4)" "int y mod 100 = int (y mod 100)"
    "int y mod 400 = int (y mod 400)"
    by (simp_all add: zmod_int)
  then show ?thesis
    by (simp add: spec_leap_year_def DaysInYear_def)
qed

lemma month_cases:
  fixes m :: nat
  assumes "1 \<le> m" "m \<le> 12"
  shows "m = 12 \<or> m = 11 \<or> m = 10 \<or> m = 9 \<or> m = 8 \<or> m = 7 \<or> m = 6 \<or> m = 5 \<or> m = 4
     \<or> m = 3 \<or> m = 2 \<or> m = 1"
  using assms by arith

lemma civil_day:
  fixes y m d :: nat
  assumes "1 \<le> m" "m \<le> 12" "1 \<le> d" "d \<le> spec_days_in_month y m"
  shows "YearFromTime (MakeDate (MakeDay (int y) (int m - 1) (int d)) 0) = int y
     \<and> MonthFromTime (MakeDate (MakeDay (int y) (int m - 1) (int d)) 0) = int m - 1
     \<and> DateFromTime (MakeDate (MakeDay (int y) (int m - 1) (int d)) 0) = int d
     \<and> Day (MakeDate (MakeDay (int y) (int m - 1) (int d)) 0) = MakeDay (int y) (int m - 1) (int d)
     \<and> DayFromYear (int y) \<le> MakeDay (int y) (int m - 1) (int d)
     \<and> MakeDay (int y) (int m - 1) (int d) < DayFromYear (int y) + 366"
proof -
  define l :: int where "l = (if DaysInYear (int y) = 366 then 1 else 0)"
  define t where "t = MakeDate (MakeDay (int y) (int m - 1) (int d)) 0"
  define w where "w = monthStart l (int m - 1) + int d - 1"
  have mm: "(int m - 1) div 12 = 0" "(int m - 1) mod 12 = int m - 1"
    using assms(1,2) by simp_all
  have md: "MakeDay (int y) (int m - 1) (int d) = DayFromYear (int y) + w"
    by (simp add: MakeDay_def mm l_def w_def)
  have dt: "Day t = DayFromYear (int y) + w"
    by (simp add: t_def MakeDate_def md)
  have diy: "DaysInYear (int y) = 365 + l"
    using DaysInYear_bounds [of "int y"] by (auto simp add: l_def DaysInYear_def)
  have lp: "spec_leap_year y \<longleftrightarrow> l = 1"
    by (simp add: spec_leap_year_iff l_def)
  have l01: "l = 0 \<or> l = 1" by (simp add: l_def)
  have w: "0 \<le> w \<and> w < 365 + l"
    using month_cases [OF assms(1,2)] l01 assms(3,4)
    by (elim disjE; simp add: w_def monthStart_def spec_days_in_month_def lp)
  have yr: "YearFromTime t = int y"
    unfolding YearFromTime_def dt
    by (rule YearFromDay_unique) (use w diy in \<open>simp_all add: DayFromYear_step\<close>)
  have dw: "DayWithinYear t = w" by (simp add: DayWithinYear_def yr dt)
  have il: "InLeapYear t = l" by (simp add: InLeapYear_def yr l_def)
  have mo: "MonthFromTime t = int m - 1"
    using month_cases [OF assms(1,2)] l01 assms(3,4)
    by (elim disjE; simp add: MonthFromTime_def dw il Let_def w_def monthStart_def
        spec_days_in_month_def lp)
  have da: "DateFromTime t = int d"
    by (simp add: DateFromTime_eq dw il mo w_def)
  from yr mo da dt md w l01 show ?thesis
    unfolding t_def by auto
qed

lemma digitVal_inv: "digitVal c = Some v \<Longrightarrow> v < 10 \<and> digit v = c"
  by (auto simp add: digitVal_def digit_def split: if_splits)

lemma div_mod_10:
  fixes q a :: nat
  assumes "a < 10"
  shows "(10 * q + a) div 10 = q \<and> (10 * q + a) mod 10 = a"
  using assms by simp

lemma digitsVal_pad2_inv:
  assumes "length s = 2" "digitsVal 0 s = Some v"
  shows "s = pad2 v \<and> v < 100"
proof -
  from assms(1) obtain a b where s: "s = [a, b]"
    by (auto simp add: eval_nat_numeral length_Suc_conv)
  from assms(2) obtain x y where x: "digitVal a = Some x" and y: "digitVal b = Some y"
    and v: "v = 10 * x + y"
    by (auto simp add: s split: option.splits)
  from digitVal_inv [OF x] digitVal_inv [OF y] show ?thesis
    by (simp add: s v pad2_def)
qed

lemma digitsVal_pad4_inv:
  assumes "length s = 4" "digitsVal 0 s = Some v"
  shows "s = pad4 v \<and> v < 10000"
proof -
  from assms(1) obtain a b c d where s: "s = [a, b, c, d]"
    by (auto simp add: eval_nat_numeral length_Suc_conv)
  from assms(2) obtain x y z w where x: "digitVal a = Some x" and y: "digitVal b = Some y"
    and z: "digitVal c = Some z" and w: "digitVal d = Some w"
    and v: "v = 10 * (10 * (10 * x + y) + z) + w"
    by (auto simp add: s split: option.splits)
  note i = digitVal_inv [OF x] digitVal_inv [OF y] digitVal_inv [OF z] digitVal_inv [OF w]
  from div_mod_10 [of w "10 * (10 * x + y) + z"] i
  have 1: "v div 10 = 10 * (10 * x + y) + z" "v mod 10 = w"
    unfolding v by blast+
  from div_mod_10 [of z "10 * x + y"] i
  have d2: "(10 * (10 * x + y) + z) div 10 = 10 * x + y" "(10 * (10 * x + y) + z) mod 10 = z"
    by blast+
  from div_mod_10 [of y x] i
  have d3: "(10 * x + y) div 10 = x" "(10 * x + y) mod 10 = y"
    by blast+
  have "v div 100 = v div 10 div 10" using div_mult2_eq [of v 10 10] by simp
  then have 2: "v div 100 = 10 * x + y" by (simp only: 1 d2)
  have m2: "v div 10 mod 10 = z" by (simp only: 1 d2)
  have "v div 1000 = v div 100 div 10" using div_mult2_eq [of v 100 10] by simp
  then have 3: "v div 1000 = x" by (simp only: 2 d3)
  have m3: "v div 100 mod 10 = y" by (simp only: 2 d3)
  have "v < 10000" unfolding v using i by simp
  with i show ?thesis
    by (simp add: s pad4_def pad3_def pad2_def 1(2) m2 3 m3)
qed

lemma spec_calendar_date_shape:
  assumes "spec_calendar_date s"
  shows "\<exists>y m d. y < 10000 \<and> 1 \<le> m \<and> m \<le> 12 \<and> 1 \<le> d \<and> d \<le> spec_days_in_month y m
     \<and> s = pad4 y @ ''-'' @ pad2 m @ ''-'' @ pad2 d"
proof -
  from assms have l: "length s = 10" and h: "s ! 4 = CHR ''-''" "s ! 7 = CHR ''-''"
    by (simp_all add: spec_calendar_date_def)
  from assms obtain y m d where y: "digitsVal 0 (take 4 s) = Some y"
    and m: "digitsVal 0 (take 2 (drop 5 s)) = Some m" and d: "digitsVal 0 (drop 8 s) = Some d"
    and r: "1 \<le> m" "m \<le> 12" "1 \<le> d" "d \<le> spec_days_in_month y m"
    by (auto simp add: spec_calendar_date_def split: option.splits)
  have 1: "s = take 4 s @ s ! 4 # drop 5 s"
    using id_take_nth_drop [of 4 s] l by simp
  have 2: "drop 5 s = take 2 (drop 5 s) @ drop 5 s ! 2 # drop 3 (drop 5 s)"
    using id_take_nth_drop [of 2 "drop 5 s"] l by simp
  have 3: "drop 5 s ! 2 = s ! 7" "drop 3 (drop 5 s) = drop 8 s"
    using l by simp_all
  have y': "take 4 s = pad4 y \<and> y < 10000"
    using l by (intro digitsVal_pad4_inv y) simp
  have m': "take 2 (drop 5 s) = pad2 m \<and> m < 100"
    using l by (intro digitsVal_pad2_inv m) simp
  have d': "drop 8 s = pad2 d \<and> d < 100"
    using l by (intro digitsVal_pad2_inv d) simp
  have "s = pad4 y @ ''-'' @ pad2 m @ ''-'' @ pad2 d"
    using 1 2 3 h y' m' d' by simp
  with r y' show ?thesis by blast
qed

lemma spec_calendar_date_parse:
  assumes "spec_calendar_date s"
  shows "\<exists>t. parseDate eng s = Inr (Some t) \<and> isoDate t = s \<and> Day t * msPerDay = t
     \<and> - 720000 \<le> Day t \<and> Day t \<le> 2940000"
proof -
  from spec_calendar_date_shape [OF assms] obtain y m d where
    y: "y < 10000" and r: "1 \<le> m" "m \<le> 12" "1 \<le> d" "d \<le> spec_days_in_month y m"
    and s: "s = pad4 y @ ''-'' @ pad2 m @ ''-'' @ pad2 d"
    by blast
  define t where "t = MakeDate (MakeDay (int y) (int m - 1) (int d)) 0"
  from civil_day [OF r] have c: "YearFromTime t = int y" "MonthFromTime t = int m - 1"
    "DateFromTime t = int d" "Day t = MakeDay (int y) (int m - 1) (int d)"
    "DayFromYear (int y) \<le> Day t" "Day t < DayFromYear (int y) + 366"
    unfolding t_def by simp_all
  have "DayFromYear 0 \<le> DayFromYear (int y)" "DayFromYear (int y) \<le> DayFromYear 9999"
    using y by (intro DayFromYear_mono; simp)+
  moreover have "DayFromYear 0 = - 719528" "DayFromYear 9999 = 2932532"
    by (simp_all add: DayFromYear_def)
  ultimately have b: "- 720000 \<le> Day t" "Day t \<le> 2940000"
    using c(5,6) by linarith+
  have m: "Day t * msPerDay = t"
    unfolding c(4) by (simp add: t_def MakeDate_def)
  have i: "isoDate t = s"
    using y by (simp add: isoDate_def c yearString_def s)
  have "\<bar>t\<bar> \<le> maxTime"
    using b m by (simp add: maxTime_def msPerDay_def abs_le_iff)
  from parseDate_isoDate [OF this, of eng] have "parseDate eng s = Inr (Some t)"
    by (simp add: i m)
  with i m b show ?thesis by blast
qed

lemma spec_calendar_date_iso: "spec_calendar_date s \<Longrightarrow> isISODate s"
proof -
  assume "spec_calendar_date s"
  from spec_calendar_date_parse [OF this, of undefined] obtain t where
    "isoDate t = s" "Day t * msPerDay = t" "- 720000 \<le> Day t" "Day t \<le> 2940000"
    by blast
  moreover from this have "\<bar>t\<bar> \<le> maxTime"
    by (simp add: maxTime_def msPerDay_def abs_le_iff)
  ultimately show ?thesis using isISODate_isoDate by blast
qed

section \<open>Facts about the historical series\<close>

lemma typeOf_string: "typeOf v = ''string'' \<longleftrightarrow> (\<exists>s. v = Str s)"
  by (cases v) (simp_all add: typeOf_def)

lemma typeOf_number: "typeOf v = ''number'' \<longleftrightarrow> (\<exists>n. v = Num n)"
  by (cases v) (simp_all add: typeOf_def)

lemma isArray_iff: "isArray v \<longleftrightarrow> (\<exists>xs. v = Arr xs)"
  by (cases v) (simp_all add: isArray_def)


lemma midnight_shift:
  assumes "isISODate s" "parseDate eng s = Inr (Some t0)"
  shows "Day (t0 + i * msPerDay) * msPerDay = t0 + i * msPerDay"
proof -
  from parseDate_midnight [OF assms] obtain k where "t0 = k * msPerDay" by auto
  then show ?thesis by (simp add: Day_def msPerDay_def algebra_simps)
qed

lemma parseHistoricalData_ok:
  assumes "truthy raw" "typeOf raw = ''object''"
    and "getProp raw ''start'' = Str s" "s \<noteq> []"
    and "getProp raw ''prices'' = Arr ps" "ps \<noteq> []"
    and "parseDate eng s = Inr (Some t0)"
    and "filter invalidPrice ps = []"
  shows "parseHistoricalData eng raw =
     (if maxTime < \<bar>t0 + (int (length ps) - 1) * msPerDay\<bar> \<or> maxSpread eng < length ps then
        Inl RangeError
      else
        Inr \<lparr>start = s, startDate = Some t0,
             endDate = Some (Day (t0 + (int (length ps) - 1) * msPerDay) * msPerDay),
             prices = ps, totalDays = length ps\<rparr>)"
proof (cases "\<bar>t0 + (int (length ps) - 1) * msPerDay\<bar> \<le> maxTime")
  case True
  have "parseDate eng (isoDate (t0 + (int (length ps) - 1) * msPerDay))
          = Inr (Some (Day (t0 + (int (length ps) - 1) * msPerDay) * msPerDay))"
    by (rule parseDate_isoDate [OF True])
  then show ?thesis
    using assms True
    by (simp add: parseHistoricalData_def truthy_def typeOf_def isArray_def elems_def strOf_def
        calculateDate_eq Let_def)
next
  case False
  then show ?thesis
    using assms
    by (simp add: parseHistoricalData_def truthy_def typeOf_def isArray_def elems_def strOf_def
        calculateDate_eq Let_def)
qed

lemma parseHistoricalData_Inr:
  assumes "parseHistoricalData eng raw = Inr h"
  shows "\<exists>s ps t0. truthy raw \<and> typeOf raw = ''object''
     \<and> getProp raw ''start'' = Str s \<and> s \<noteq> []
     \<and> getProp raw ''prices'' = Arr ps \<and> ps \<noteq> []
     \<and> parseDate eng s = Inr (Some t0) \<and> filter invalidPrice ps = []
     \<and> \<bar>t0 + (int (length ps) - 1) * msPerDay\<bar> \<le> maxTime
     \<and> length ps \<le> maxSpread eng
     \<and> h = \<lparr>start = s, startDate = Some t0,
             endDate = Some (Day (t0 + (int (length ps) - 1) * msPerDay) * msPerDay),
             prices = ps, totalDays = length ps\<rparr>"
proof -
  from assms have a: "truthy raw" "typeOf raw = ''object''"
    and b: "truthy (getProp raw ''start'')" "typeOf (getProp raw ''start'') = ''string''"
    and c: "isArray (getProp raw ''prices'')" "elems (getProp raw ''prices'') \<noteq> []"
    by (auto simp add: parseHistoricalData_def split: if_splits)
  from b obtain s where s: "getProp raw ''start'' = Str s" "s \<noteq> []"
    by (auto simp add: typeOf_string truthy_def)
  from c obtain ps where ps: "getProp raw ''prices'' = Arr ps" "ps \<noteq> []"
    by (auto simp add: isArray_iff elems_def)
  from assms a b c obtain d where d: "parseDate eng s = Inr d"
    by (auto simp add: parseHistoricalData_def s strOf_def split: if_splits sum.splits)
  with parseDate_Some obtain t0 where t0: "parseDate eng s = Inr (Some t0)" by blast
  from assms a b c have f: "filter invalidPrice ps = []"
    by (auto simp add: parseHistoricalData_def s ps strOf_def elems_def t0 Let_def
        split: if_splits)
  from parseHistoricalData_ok [OF a s ps t0 f] assms
  show ?thesis using a s ps t0 f by (auto split: if_splits)
qed

lemma series_of_parse:
  assumes "parseHistoricalData eng raw = Inr h"
  obtains t0 where "startDate h = Some t0" "parseDate eng (start h) = Inr (Some t0)"
    "prices h \<noteq> []" "\<bar>t0\<bar> \<le> maxTime"
    "\<bar>t0 + (int (length (prices h)) - 1) * msPerDay\<bar> \<le> maxTime"
    "endDate h = Some (Day (t0 + (int (length (prices h)) - 1) * msPerDay) * msPerDay)"
    "getProp raw ''start'' = Str (start h)" "getProp raw ''prices'' = Arr (prices h)"
    "filter invalidPrice (prices h) = []" "length (prices h) \<le> maxSpread eng"
proof -
  from parseHistoricalData_Inr [OF assms] obtain s ps t0 where
    a: "getProp raw ''start'' = Str s" "getProp raw ''prices'' = Arr ps" "ps \<noteq> []"
      "parseDate eng s = Inr (Some t0)" "filter invalidPrice ps = []"
      "\<bar>t0 + (int (length ps) - 1) * msPerDay\<bar> \<le> maxTime"
      "length ps \<le> maxSpread eng"
      "h = \<lparr>start = s, startDate = Some t0,
             endDate = Some (Day (t0 + (int (length ps) - 1) * msPerDay) * msPerDay),
             prices = ps, totalDays = length ps\<rparr>"
    by blast
  from parseDate_Some [OF a(4)] have "\<bar>t0\<bar> \<le> maxTime" by auto
  with a that show ?thesis by simp
qed

lemma in_range_between:
  assumes "\<bar>t0\<bar> \<le> maxTime" "\<bar>t0 + (n - 1) * msPerDay\<bar> \<le> maxTime" "0 \<le> i" "i < n"
  shows "\<bar>t0 + i * msPerDay\<bar> \<le> maxTime"
proof -
  have "0 \<le> i * msPerDay" using assms(3) by (simp add: msPerDay_def)
  moreover have "i * msPerDay \<le> (n - 1) * msPerDay"
    using assms(4) by (simp add: msPerDay_def)
  ultimately show ?thesis using assms(1,2) by linarith
qed

lemma div_day_offset:
  "0 \<le> tod \<Longrightarrow> tod < msPerDay \<Longrightarrow> (t0 + i * msPerDay + tod - t0) div msPerDay = i"
  by (simp add: msPerDay_def)

lemma getPriceForDate_Date:
  assumes "startDate h = Some t0"
  shows "getPriceForDate eng h (DateObj (Some t)) =
     (if (t - t0) div msPerDay < 0 \<or> int (length (prices h)) \<le> (t - t0) div msPerDay
      then Inr None
      else Inr (Some \<lparr>date = isoDate t, price = prices h ! nat ((t - t0) div msPerDay)\<rparr>))"
  by (simp add: getPriceForDate_def floorDays_def assms formatDate_Some index_def Let_def)

lemma isoDate_tod:
  "0 \<le> tod \<Longrightarrow> tod < msPerDay \<Longrightarrow> isoDate (k * msPerDay + tod) = isoDate (k * msPerDay)"
  by (rule isoDate_Day) (simp add: Day_def msPerDay_def)

lemma rangeLoop_eq:
  assumes "\<And>i. lo \<le> i \<Longrightarrow> i \<le> hi \<Longrightarrow> calculateDate eng (start h) i = Inr (f i)"
  shows "rangeLoop eng h lo hi acc =
     Inr (acc @ map (\<lambda>i. \<lparr>date = f i, price = index (prices h) (Some i)\<rparr>) [lo..hi])"
  using assms
proof (induction eng h lo hi acc rule: rangeLoop.induct)
  case (1 eng h i actualEnd result)
  show ?case
  proof (cases "i \<le> actualEnd")
    case True
    have c: "calculateDate eng (start h) i = Inr (f i)" using 1(2) True by simp
    have "rangeLoop eng h (i + 1) actualEnd
            (result @ [\<lparr>date = f i, price = index (prices h) (Some i)\<rparr>]) =
          Inr ((result @ [\<lparr>date = f i, price = index (prices h) (Some i)\<rparr>]) @
               map (\<lambda>i. \<lparr>date = f i, price = index (prices h) (Some i)\<rparr>) [i + 1..actualEnd])"
      using 1(2) by (intro 1(1) [OF True c]) simp_all
    then show ?thesis
      using True
      by (simp add: rangeLoop.simps [of eng h i actualEnd result] c upto_rec1 [of i actualEnd])
  next
    case False
    then show ?thesis by (simp add: rangeLoop.simps [of eng h i actualEnd result])
  qed
qed

lemma filter_upto_interval:
  fixes lo hi m :: int
  shows "filter (\<lambda>i. lo \<le> i \<and> i \<le> hi) [0..m] = [max 0 lo..min m hi]"
proof (rule sorted_distinct_set_unique)
  show "sorted (filter (\<lambda>i. lo \<le> i \<and> i \<le> hi) [0..m])"
    by (rule sorted_wrt_filter) simp
  show "set (filter (\<lambda>i. lo \<le> i \<and> i \<le> hi) [0..m]) = set [max 0 lo..min m hi]"
    by auto
qed simp_all




lemma getPriceRange_value:
  assumes "parseHistoricalData eng raw = Inr h"
    and "parseDate eng fromDate = Inr (Some a)" "parseDate eng toDate = Inr (Some b)"
    and "startDate h = Some t0"
  shows "getPriceRange eng h fromDate toDate =
     (if b < a then Inl (Error ''Start date must be before end date'')
      else Inr (map (\<lambda>i. \<lparr>date = isoDate (t0 + i * msPerDay), price = prices h ! nat i\<rparr>)
                  [max 0 ((a - t0) div msPerDay)
                   ..min (int (length (prices h)) - 1) ((b - t0) div msPerDay)]))"
proof (cases "b < a")
  case True
  then show ?thesis by (simp add: getPriceRange_def assms)
next
  case False
  from series_of_parse [OF assms(1)] assms(4) have
    p: "parseDate eng (start h) = Inr (Some t0)" and r: "\<bar>t0\<bar> \<le> maxTime"
      "\<bar>t0 + (int (length (prices h)) - 1) * msPerDay\<bar> \<le> maxTime"
    by auto
  define n where "n = int (length (prices h))"
  define lo where "lo = max 0 ((a - t0) div msPerDay)"
  define hi where "hi = min (n - 1) ((b - t0) div msPerDay)"
  have cd: "calculateDate eng (start h) i = Inr (isoDate (t0 + i * msPerDay))"
    if "lo \<le> i" "i \<le> hi" for i
    using that in_range_between [OF r(1) r(2) [folded n_def], of i]
    by (simp add: calculateDate_eq [OF p] lo_def hi_def)
  have ix: "map (\<lambda>i. \<lparr>date = isoDate (t0 + i * msPerDay), price = index (prices h) (Some i)\<rparr>)
              [lo..hi]
          = map (\<lambda>i. \<lparr>date = isoDate (t0 + i * msPerDay), price = prices h ! nat i\<rparr>) [lo..hi]"
    by (rule map_cong) (auto simp add: index_def n_def lo_def hi_def)
  have "getPriceRange eng h fromDate toDate = rangeLoop eng h lo hi []"
    using False by (simp add: getPriceRange_def assms floorDays_def Let_def n_def lo_def hi_def)
  also have "\<dots> = Inr ([] @ map (\<lambda>i. \<lparr>date = isoDate (t0 + i * msPerDay),
                                      price = index (prices h) (Some i)\<rparr>) [lo..hi])"
    by (rule rangeLoop_eq) (rule cd)
  finally show ?thesis using False by (simp add: ix) (simp add: lo_def hi_def n_def)
qed

lemma getPriceRange_eq:
  assumes "parseHistoricalData eng raw = Inr h"
    and "parseDate eng fromDate = Inr (Some a)" "parseDate eng toDate = Inr (Some b)"
    and "startDate h = Some t0"
    and "isISODate (start h)" "isISODate fromDate" "isISODate toDate"
  shows "getPriceRange eng h fromDate toDate =
     (if b < a then Inl (Error ''Start date must be before end date'')
      else Inr (map (\<lambda>i. \<lparr>date = isoDate (t0 + i * msPerDay), price = prices h ! nat i\<rparr>)
                  (filter (\<lambda>i. a \<le> t0 + i * msPerDay \<and> t0 + i * msPerDay \<le> b)
                     [0..int (length (prices h)) - 1])))"
proof -
  from series_of_parse [OF assms(1)] assms(4) have
    p: "parseDate eng (start h) = Inr (Some t0)"
    by auto
  from parseDate_midnight [OF assms(5) p] obtain k0 where k0: "t0 = k0 * msPerDay" by auto
  from parseDate_midnight [OF assms(6) assms(2)] obtain ka where ka: "a = ka * msPerDay" by auto
  from parseDate_midnight [OF assms(7) assms(3)] obtain kb where kb: "b = kb * msPerDay" by auto
  define n where "n = int (length (prices h))"
  have sd: "(a - t0) div msPerDay = ka - k0" and ed: "(b - t0) div msPerDay = kb - k0"
    by (simp_all add: ka kb k0 msPerDay_def algebra_simps flip: distrib_right right_diff_distrib')
  have fl: "filter (\<lambda>i. a \<le> t0 + i * msPerDay \<and> t0 + i * msPerDay \<le> b) [0..n - 1]
      = [max 0 (ka - k0)..min (n - 1) (kb - k0)]"
  proof -
    have "(\<lambda>i. a \<le> t0 + i * msPerDay \<and> t0 + i * msPerDay \<le> b)
        = (\<lambda>i. ka - k0 \<le> i \<and> i \<le> kb - k0)"
      by (auto simp add: ka kb k0 msPerDay_def fun_eq_iff)
    then show ?thesis by (simp only: filter_upto_interval)
  qed
  show ?thesis
    unfolding getPriceRange_value [OF assms(1-4)] sd ed fl [unfolded n_def] ..
qed


section \<open>Evaluation at the dates of the examples\<close>

lemmas date_eval =
  newDateString_def isoDateTime_def parseISOTime_def MakeTime_def parseISODate_def
  parseYear_def parseField_def digitVal_def MakeDate_def MakeDay_def DayFromYear_def DaysInYear_def monthStart_def TimeClip_def
  msPerDay_def maxTime_def

lemmas iso_eval =
  isoDate_def yearString_def pad2_def pad3_def pad4_def pad6_def digit_def YearFromTime_def
  YearFromDay_def yearSearch.simps MonthFromTime_def DateFromTime_def DayWithinYear_def
  InLeapYear_def Day_def msPerDay_def DayFromYear_def DaysInYear_def

lemma parseDate_2024_12_14: "parseDate eng ''2024-12-14'' = Inr (Some 1734134400000)"
  by (simp add: parseDate_def date_eval)

lemma parseDate_2024_12_15: "parseDate eng ''2024-12-15'' = Inr (Some 1734220800000)"
  by (simp add: parseDate_def date_eval)

lemma parseDate_2024_12_01: "parseDate eng ''2024-12-01'' = Inr (Some 1733011200000)"
  by (simp add: parseDate_def date_eval)

lemma isoDate_2024_12_14: "isoDate 1734134400000 = ''2024-12-14''"
  by (simp add: iso_eval)

lemma isoDate_2024_12_15: "isoDate 1734220800000 = ''2024-12-15''"
  by (simp add: iso_eval)

lemma parse_seriesA:
  "parseHistoricalData eng seriesA_raw =
     (if maxSpread eng < 3 then Inl RangeError else Inr seriesA)"
proof -
  have "parseHistoricalData eng seriesA_raw =
     (if maxTime < \<bar>1734134400000 + (int (length [Num (Fin 52000), Num (Fin 50000), Num (Fin 45000)]) - 1) * msPerDay\<bar>
         \<or> maxSpread eng < length [Num (Fin 52000), Num (Fin 50000), Num (Fin 45000)] then
        Inl RangeError
      else
        Inr \<lparr>start = ''2024-12-14'', startDate = Some 1734134400000,
             endDate = Some (Day (1734134400000 + (int (length [Num (Fin 52000), Num (Fin 50000), Num (Fin 45000)]) - 1) * msPerDay) * msPerDay),
             prices = [Num (Fin 52000), Num (Fin 50000), Num (Fin 45000)],
             totalDays = length [Num (Fin 52000), Num (Fin 50000), Num (Fin 45000)]\<rparr>)"
    by (rule parseHistoricalData_ok [OF _ _ _ _ _ _ parseDate_2024_12_14])
      (simp_all add: truthy_def typeOf_def getProp_def invalidPrice_def isNaN_def)
  then show ?thesis by (simp add: msPerDay_def maxTime_def Day_def)
qed

lemma parseDate_2024_12_16: "parseDate eng ''2024-12-16'' = Inr (Some 1734307200000)"
  by (simp add: parseDate_def date_eval)

lemma newDate_2024_12_14: "newDateString eng ''2024-12-14'' = Some 1734134400000"
  by (simp add: date_eval)

lemma newDate_2024_12_15: "newDateString eng ''2024-12-15'' = Some 1734220800000"
  by (simp add: date_eval)

lemma newDate_2024_12_16: "newDateString eng ''2024-12-16'' = Some 1734307200000"
  by (simp add: date_eval)

lemma isoDate_2024_12_16: "isoDate 1734307200000 = ''2024-12-16''"
  by (simp add: iso_eval)

lemma isoDate_2024_12_14_late: "isoDate 1734217200000 = ''2024-12-14''"
  by (simp add: iso_eval)

lemma parse_seriesB:
  "parseHistoricalData eng seriesB_raw =
     (if maxSpread eng < 2 then Inl RangeError else Inr seriesB)"
proof -
  have "parseHistoricalData eng seriesB_raw =
     (if maxTime < \<bar>1734134400000 + (int (length [Num (Fin 52000), Num (Fin 50000)]) - 1) * msPerDay\<bar>
         \<or> maxSpread eng < length [Num (Fin 52000), Num (Fin 50000)] then
        Inl RangeError
      else
        Inr \<lparr>start = ''2024-12-14'', startDate = Some 1734134400000,
             endDate = Some (Day (1734134400000 + (int (length [Num (Fin 52000), Num (Fin 50000)]) - 1) * msPerDay) * msPerDay),
             prices = [Num (Fin 52000), Num (Fin 50000)],
             totalDays = length [Num (Fin 52000), Num (Fin 50000)]\<rparr>)"
    by (rule parseHistoricalData_ok [OF _ _ _ _ _ _ parseDate_2024_12_14])
      (simp_all add: truthy_def typeOf_def getProp_def invalidPrice_def isNaN_def)
  then show ?thesis by (simp add: msPerDay_def maxTime_def Day_def)
qed

lemma parse_seriesC:
  "parseHistoricalData eng seriesC_raw =
     (if maxSpread eng < 1 then Inl RangeError else Inr seriesC)"
proof -
  have "parseHistoricalData eng seriesC_raw =
     (if maxTime < \<bar>1734307200000 + (int (length [Num (Fin 50000)]) - 1) * msPerDay\<bar>
         \<or> maxSpread eng < length [Num (Fin 50000)] then
        Inl RangeError
      else
        Inr \<lparr>start = ''2024-12-16'', startDate = Some 1734307200000,
             endDate = Some (Day (1734307200000 + (int (length [Num (Fin 50000)]) - 1) * msPerDay) * msPerDay),
             prices = [Num (Fin 50000)],
             totalDays = length [Num (Fin 50000)]\<rparr>)"
    by (rule parseHistoricalData_ok [OF _ _ _ _ _ _ parseDate_2024_12_16])
      (simp_all add: truthy_def typeOf_def getProp_def invalidPrice_def isNaN_def)
  then show ?thesis by (simp add: msPerDay_def maxTime_def Day_def)
qed

lemma yesterday_on_utc_host:
  "getStartOfYesterday 0 (Some 1734350400000) = Some 1734220800000"
proof -
  have "getStartOfYesterday 0 (Some 1734350400000) =
      Some (UTC 0 (MakeDate (Day (LocalTime 0 1734350400000) - 1) 0))"
    by (rule getStartOfYesterday_eq)
      (simp_all add: maxTime_def MakeDate_def Day_def LocalTime_def msPerDay_def)
  then show ?thesis by (simp add: UTC_def MakeDate_def Day_def LocalTime_def msPerDay_def)
qed

lemma yesterday_on_host_east_of_utc:
  "getStartOfYesterday 3600000 (Some 1734350400000) = Some 1734217200000"
proof -
  have "getStartOfYesterday 3600000 (Some 1734350400000) =
      Some (UTC 3600000 (MakeDate (Day (LocalTime 3600000 1734350400000) - 1) 0))"
    by (rule getStartOfYesterday_eq)
      (simp_all add: maxTime_def MakeDate_def Day_def LocalTime_def msPerDay_def)
  then show ?thesis by (simp add: UTC_def MakeDate_def Day_def LocalTime_def msPerDay_def)
qed

lemma getLatestPrice_seriesB:
  "getLatestPrice eng seriesB = Inr \<lparr>date = ''2024-12-15'', price = Num (Fin 50000)\<rparr>"
  using isoDate_2024_12_15
  by (simp add: getLatestPrice_def calculateDate_eq [OF parseDate_2024_12_14] index_def
      msPerDay_def maxTime_def)

lemma getPriceForDate_seriesB_yesterday:
  "getPriceForDate eng seriesB (DateObj (Some 1734220800000))
     = Inr (Some \<lparr>date = ''2024-12-15'', price = Num (Fin 50000)\<rparr>)"
  by (simp add: getPriceForDate_Date [of seriesB 1734134400000] isoDate_2024_12_15 msPerDay_def)

lemma getPriceForDate_seriesA_yesterday:
  "getPriceForDate eng seriesA (DateObj (Some 1734220800000))
     = Inr (Some \<lparr>date = ''2024-12-15'', price = Num (Fin 50000)\<rparr>)"
  by (simp add: getPriceForDate_Date [of seriesA 1734134400000] isoDate_2024_12_15 msPerDay_def)

lemma getPriceForDate_seriesA_east:
  "getPriceForDate eng seriesA (DateObj (Some 1734217200000))
     = Inr (Some \<lparr>date = ''2024-12-14'', price = Num (Fin 52000)\<rparr>)"
  by (simp add: getPriceForDate_Date [of seriesA 1734134400000] isoDate_2024_12_14_late
      msPerDay_def)

lemma getPriceForDate_seriesC_start:
  "getPriceForDate eng seriesC (DateObj (Some 1734307200000))
     = Inr (Some \<lparr>date = ''2024-12-16'', price = Num (Fin 50000)\<rparr>)"
  using getPriceForDate_Date [of seriesC 1734307200000 eng 1734307200000]
  by (simp add: isoDate_2024_12_16 msPerDay_def)

lemma sampleEngine_maxSpread [simp]: "maxSpread (sampleEngine tza) = 125000"
  by (simp add: sampleEngine_def)

lemma parseDate_sample:
  "parseDate (sampleEngine 3600000) ''2024-12-14('' = Inr (Some 1734130800000)"
  by (simp add: parseDate_def date_eval sampleEngine_def UTC_def)

lemma parseDate_invalid_month:
  "parseDate (sampleEngine tza) ''2024-13-01'' = Inl (Error ''Invalid date format: 2024-13-01'')"
  by (simp add: parseDate_def date_eval sampleEngine_def)

lemma not_iso_sample: "\<not> isISODate ''2024-12-14(''"
  by (simp add: isISODate_def parseISODate_def parseYear_def parseField_def digitVal_def)

lemma parse_seriesD: "parseHistoricalData (sampleEngine 3600000) seriesD_raw = Inr seriesD"
proof -
  have "parseHistoricalData (sampleEngine 3600000) seriesD_raw =
     (if maxTime < \<bar>1734130800000
            + (int (length [Num (Fin 52000), Num (Fin 50000), Num (Fin 45000)]) - 1) * msPerDay\<bar>
         \<or> maxSpread (sampleEngine 3600000)
             < length [Num (Fin 52000), Num (Fin 50000), Num (Fin 45000)] then
        Inl RangeError
      else
        Inr \<lparr>start = ''2024-12-14('', startDate = Some 1734130800000,
             endDate = Some (Day (1734130800000
                + (int (length [Num (Fin 52000), Num (Fin 50000), Num (Fin 45000)]) - 1)
                  * msPerDay) * msPerDay),
             prices = [Num (Fin 52000), Num (Fin 50000), Num (Fin 45000)],
             totalDays = length [Num (Fin 52000), Num (Fin 50000), Num (Fin 45000)]\<rparr>)"
    by (rule parseHistoricalData_ok [OF _ _ _ _ _ _ parseDate_sample])
      (simp_all add: truthy_def typeOf_def getProp_def invalidPrice_def isNaN_def)
  then show ?thesis by (simp add: msPerDay_def maxTime_def Day_def)
qed

lemma isoDate_2024_12_14_2330: "isoDate 1734219000000 = ''2024-12-14''"
  by (simp add: iso_eval)

lemma isoDate_2024_12_15_late: "isoDate 1734303600000 = ''2024-12-15''"
  by (simp add: iso_eval)






lemma not_calendar_2024: "\<not> spec_calendar_date ''2024''"
  by (simp add: spec_calendar_date_def)

lemma calendar_2024_12_14: "spec_calendar_date ''2024-12-14''"
  by (simp add: spec_calendar_date_def digitVal_def spec_days_in_month_def spec_leap_year_def)

section \<open>Facts about the application coordinator\<close>

lemma update_1d:
  assumes "globalHistoricalData st = Some h"
    and "getPriceForDate eng h (DateObj (getStartOfYesterday tza now)) = Inr (Some spd)"
    and "getLatestPrice eng h = Inr latest"
  shows "updatePortfolioMetricsForTimeWindow pow tza eng now st ''1d'' =
     (if date spd = date latest then
        (case calculateYearsBetweenDates (DateObj (newDateString eng (date spd))) (DateObj now) of
           Inl e \<Rightarrow> ShowMetricsError ''Unable to calculate''
         | Inr timeHeld \<Rightarrow>
             ShowNotAvailable timeHeld (num_mul (globalBtcAmount st) (numOf (price spd)))
               (price spd))
      else
        (case calculatePortfolioMetrics pow (Num (globalBtcAmount st))
                (Num (globalCurrentPrice st)) (price spd)
                (DateObj (newDateString eng (date spd))) (DateObj now) of
           Inl e \<Rightarrow> ShowMetricsError ''Unable to calculate''
         | Inr m \<Rightarrow> ShowMetrics m))"
  using assms
  by (simp add: updatePortfolioMetricsForTimeWindow_def windowMetricsBody_def TIME_WINDOWS_def
      getCalendarStartDate_def showWindowMetrics_def split: sum.splits)

lemma showWindowMetrics_not_NA: "showWindowMetrics pow eng now st spd \<noteq> Inr (ShowNotAvailable y iv pp)"
  by (simp add: showWindowMetrics_def split: option.splits sum.splits)

lemma not_available_only_1d:
  assumes "updatePortfolioMetricsForTimeWindow pow tza eng now st w = ShowNotAvailable y iv pp"
  shows "w = ''1d''"
proof (rule ccontr)
  assume w: "w \<noteq> ''1d''"
  from assms obtain h where h: "globalHistoricalData st = Some h"
    by (auto simp add: updatePortfolioMetricsForTimeWindow_def split: option.splits)
  from assms h have b: "windowMetricsBody pow tza eng now st h w = Inr (ShowNotAvailable y iv pp)"
    by (auto simp add: updatePortfolioMetricsForTimeWindow_def split: sum.splits)
  show False
  proof (cases "w = ''all''")
    case True
    with b show False
      by (auto simp add: windowMetricsBody_def Let_def split: sum.splits option.splits)
  next
    case False
    with b w showWindowMetrics_not_NA show False
      by (auto simp add: windowMetricsBody_def split: sum.splits option.splits if_splits)
  qed
qed

text \<open>
  The scenario of C5 on a host on UTC: there the "1d" window starts on 2024-12-15, the
  start price is 50000, and the gains are -5000 and -0.10.
\<close>

lemma scenario_A_on_a_UTC_host:
  assumes "3 \<le> maxSpread eng"
  shows "parseHistoricalData eng seriesA_raw = Inr seriesA
   \<and> getCalendarStartDate 0 ''1d'' (Some 1734350400000) = Inr (Some 1734220800000)
   \<and> getPriceForDate eng seriesA (DateObj (Some 1734220800000))
       = Inr (Some \<lparr>date = ''2024-12-15'', price = Num (Fin 50000)\<rparr>)
   \<and> (\<forall>pow. \<exists>m. calculatePortfolioMetrics pow (Num (Fin 1)) (Num (Fin 45000)) (Num (Fin 50000))
                   (DateObj (newDateString eng ''2024-12-15'')) (DateObj (Some 1734350400000))
                 = Inr m
               \<and> absoluteGain m = Fin (- 5000) \<and> percentageGain m = Fin (- 0.10))"
proof -
  have y: "calculateYearsBetweenDates (DateObj (Some 1734220800000))
             (DateObj (Some 1734350400000)) = Inr (Fin (1.5 / 365.25))"
    by (simp add: years_value)
  have m: "\<exists>m. calculatePortfolioMetrics pow (Num (Fin 1)) (Num (Fin 45000)) (Num (Fin 50000))
                   (DateObj (newDateString eng ''2024-12-15'')) (DateObj (Some 1734350400000))
                 = Inr m
               \<and> absoluteGain m = Fin (- 5000) \<and> percentageGain m = Fin (- 0.10)" for pow
    using metrics_value [OF _ _ _ y, of "Fin 1" "Fin 45000" "Fin 50000" pow]
    by (simp add: newDate_2024_12_15 num_sub_def num_neg_def)
  show ?thesis
    using m assms
    by (simp add: parse_seriesA getCalendarStartDate_def yesterday_on_utc_host
        getPriceForDate_seriesA_yesterday)
qed

text \<open>
  Scenario A over the offsets of the time zones, from twelve hours behind UTC to
  fourteen hours ahead: the start price of the "1d" window is the 50000 of 2024-12-15 on
  a host on UTC or behind it, and on a host twelve hours or more ahead, where the local
  day is already 2024-12-17; on a host ahead of UTC by less than twelve hours it is the
  52000 of 2024-12-14.
\<close>

lemma scenario_A_by_offset:
  assumes "- 43200000 \<le> tza" "tza \<le> 50400000"
  shows "\<exists>t. getCalendarStartDate tza ''1d'' (Some 1734350400000) = Inr (Some t)
     \<and> getPriceForDate eng seriesA (DateObj (Some t)) =
         Inr (Some (if 0 < tza \<and> tza < 43200000
                    then \<lparr>date = ''2024-12-14'', price = Num (Fin 52000)\<rparr>
                    else \<lparr>date = ''2024-12-15'', price = Num (Fin 50000)\<rparr>))"
proof -
  define k :: int where "k = (if tza < 43200000 then 20072 else 20073)"
  define t where "t = k * msPerDay - tza"
  have "Day (LocalTime tza 1734350400000) = k + 1"
    unfolding Day_def LocalTime_def msPerDay_def
    using assms by (intro int_div_pos_eq [where r = "1734350400000 + tza - 86400000 * (k + 1)"])
      (auto simp add: k_def)
  then have y: "getStartOfYesterday tza (Some 1734350400000) = Some t"
    using getStartOfYesterday_eq [of 1734350400000 tza] assms
    by (simp add: maxTime_def MakeDate_def UTC_def t_def k_def msPerDay_def split: if_splits)
  define j :: int where "j = (if 0 < tza \<and> tza < 43200000 then 20071 else 20072)"
  have d: "Day t = j"
    unfolding Day_def t_def msPerDay_def
    using assms by (intro int_div_pos_eq [where r = "k * 86400000 - tza - 86400000 * j"])
      (auto simp add: k_def j_def)
  have o: "(t - 1734134400000) div msPerDay = j - 20071"
    unfolding t_def msPerDay_def
    using assms
    by (intro int_div_pos_eq [where r = "k * 86400000 - tza - 1734134400000 - 86400000 * (j - 20071)"])
      (auto simp add: k_def j_def)
  have i: "isoDate t = (if 0 < tza \<and> tza < 43200000 then ''2024-12-14'' else ''2024-12-15'')"
  proof (cases "0 < tza \<and> tza < 43200000")
    case True
    have "Day 1734134400000 = 20071" by (simp add: Day_def msPerDay_def)
    with True d have "Day t = Day 1734134400000" by (simp add: j_def)
    from isoDate_Day [OF this] True show ?thesis by (simp add: isoDate_2024_12_14)
  next
    case False
    have "Day 1734220800000 = 20072" by (simp add: Day_def msPerDay_def)
    with False d have "Day t = Day 1734220800000" by (simp add: j_def)
    from isoDate_Day [OF this] False show ?thesis by (simp add: isoDate_2024_12_15)
  qed
  have "getPriceForDate eng seriesA (DateObj (Some t)) =
         Inr (Some (if 0 < tza \<and> tza < 43200000
                    then \<lparr>date = ''2024-12-14'', price = Num (Fin 52000)\<rparr>
                    else \<lparr>date = ''2024-12-15'', price = Num (Fin 50000)\<rparr>))"
    unfolding getPriceForDate_Date [of seriesA 1734134400000 eng t, simplified] o i
    by (simp add: j_def)
  with y show ?thesis by (simp add: getCalendarStartDate_def)
qed

lemma update_all:
  assumes "globalHistoricalData st = Some h"
    and "getPriceForDate eng h (DateObj (newDateString eng (start h))) = Inr (Some earliest)"
  shows "updatePortfolioMetricsForTimeWindow pow tza eng now st ''all'' =
     (case calculatePortfolioMetrics pow (Num (globalBtcAmount st))
             (Num (globalCurrentPrice st)) (price earliest)
             (DateObj (newDateString eng (start h))) (DateObj now) of
        Inl e \<Rightarrow> ShowMetricsError ''Unable to calculate''
      | Inr m \<Rightarrow> ShowMetrics m)"
  using assms
  by (simp add: updatePortfolioMetricsForTimeWindow_def windowMetricsBody_def Let_def
      split: sum.splits)

lemma one_day_on_seriesB:
  "updatePortfolioMetricsForTimeWindow pow 0 eng (Some 1734350400000)
       \<lparr>globalHistoricalData = Some seriesB, globalBtcAmount = Fin 1,
        globalCurrentPrice = currentPrice\<rparr> ''1d''
     = ShowNotAvailable (Fin (1.5 / 365.25)) (Fin 50000) (Num (Fin 50000))"
proof -
  define st where "st = \<lparr>globalHistoricalData = Some seriesB, globalBtcAmount = Fin 1,
        globalCurrentPrice = currentPrice\<rparr>"
  have h: "globalHistoricalData st = Some seriesB" and a: "globalBtcAmount st = Fin 1"
    by (simp_all add: st_def)
  have p: "getPriceForDate eng seriesB (DateObj (getStartOfYesterday 0 (Some 1734350400000)))
      = Inr (Some \<lparr>date = ''2024-12-15'', price = Num (Fin 50000)\<rparr>)"
    by (simp only: yesterday_on_utc_host getPriceForDate_seriesB_yesterday)
  have y: "calculateYearsBetweenDates (DateObj (newDateString eng ''2024-12-15''))
              (DateObj (Some 1734350400000)) = Inr (Fin (1.5 / 365.25))"
    by (simp add: newDate_2024_12_15 years_value)
  have "updatePortfolioMetricsForTimeWindow pow 0 eng (Some 1734350400000) st ''1d''
     = ShowNotAvailable (Fin (1.5 / 365.25)) (Fin 50000) (Num (Fin 50000))"
    unfolding update_1d [OF h p getLatestPrice_seriesB]
    by (simp add: y a)
  then show ?thesis by (simp only: st_def)
qed

lemma all_on_seriesC:
  "\<exists>m. updatePortfolioMetricsForTimeWindow pow 0 eng (Some 1734350400000)
           \<lparr>globalHistoricalData = Some seriesC, globalBtcAmount = Fin 1,
            globalCurrentPrice = Fin 50000\<rparr> ''all''
         = ShowMetrics m
       \<and> absoluteGain m = Fin 0 \<and> percentageGain m = Fin 0"
proof -
  define st where "st = \<lparr>globalHistoricalData = Some seriesC, globalBtcAmount = Fin 1,
        globalCurrentPrice = Fin 50000\<rparr>"
  have h: "globalHistoricalData st = Some seriesC" and a: "globalBtcAmount st = Fin 1"
    and c: "globalCurrentPrice st = Fin 50000"
    by (simp_all add: st_def)
  have s: "newDateString eng (start seriesC) = Some 1734307200000"
    by (simp add: newDate_2024_12_16)
  have g: "getPriceForDate eng seriesC (DateObj (newDateString eng (start seriesC)))
      = Inr (Some \<lparr>date = ''2024-12-16'', price = Num (Fin 50000)\<rparr>)"
    by (simp only: s getPriceForDate_seriesC_start)
  have y: "calculateYearsBetweenDates (DateObj (Some 1734307200000))
             (DateObj (Some 1734350400000)) = Inr (Fin (0.5 / 365.25))"
    by (simp add: years_value)
  have m: "calculatePortfolioMetrics pow (Num (Fin 1)) (Num (Fin 50000)) (Num (Fin 50000))
             (DateObj (Some 1734307200000)) (DateObj (Some 1734350400000))
           = Inr \<lparr>totalValue = num_mul (Fin 1) (Fin 50000),
                  absoluteGain = num_sub (num_mul (Fin 1) (Fin 50000)) (num_mul (Fin 1) (Fin 50000)),
                  percentageGain = num_div (num_sub (Fin 50000) (Fin 50000)) (Fin 50000),
                  cagr = num_sub (pow (num_div (Fin 50000) (Fin 50000))
                                      (num_div (Fin 1) (Fin (0.5 / 365.25)))) (Fin 1),
                  displayCAGR = (if num_lt (Fin (0.5 / 365.25)) (num_div (Fin 30) (Fin 365.25))
                                 then None
                                 else Some (num_sub (pow (num_div (Fin 50000) (Fin 50000))
                                      (num_div (Fin 1) (Fin (0.5 / 365.25)))) (Fin 1))),
                  years = Fin (0.5 / 365.25),
                  initialValue = num_mul (Fin 1) (Fin 50000)\<rparr>"
    by (rule metrics_value [OF _ _ _ y]) simp_all
  have "\<exists>m. updatePortfolioMetricsForTimeWindow pow 0 eng (Some 1734350400000) st ''all''
         = ShowMetrics m
       \<and> absoluteGain m = Fin 0 \<and> percentageGain m = Fin 0"
    unfolding update_all [OF h g] a c s
    by (simp add: m num_sub_def num_neg_def)
  then show ?thesis by (simp only: st_def)
qed

section \<open>The claims\<close>

text \<open>
  C1, on a host one hour east of UTC at 2024-12-16T12:00Z, the instant of the
  repository's test "should verify start of yesterday calculation". The "1d" window
  starts at local midnight of 2024-12-15, the instant 2024-12-14T23:00Z, and the date of
  its ISO string is 2024-12-14. The claim has 00:00 UTC of 2024-12-15 here, the instant
  1734220800000, and the test expects the date 2024-12-15. On that host the instants
  00:05Z and 23:55Z of the one UTC day 2024-12-16 resolve to different starts.
\<close>

theorem one_day_window_on_a_host_east_of_UTC:
  "getCalendarStartDate 3600000 ''1d'' (Some 1734350400000) = Inr (Some 1734217200000)
   \<and> formatDate (Some 1734217200000) = Inr ''2024-12-14''
   \<and> MakeDate (Day 1734350400000 - 1) 0 = 1734220800000
   \<and> formatDate (Some 1734220800000) = Inr ''2024-12-15''
   \<and> Day 1734307500000 = Day 1734393300000
   \<and> getCalendarStartDate 3600000 ''1d'' (Some 1734307500000) = Inr (Some 1734217200000)
   \<and> getCalendarStartDate 3600000 ''1d'' (Some 1734393300000) = Inr (Some 1734303600000)"
proof -
  have m: "\<bar>t\<bar> \<le> 1800000000000 \<Longrightarrow> getStartOfYesterday 3600000 (Some t) =
           Some (UTC 3600000 (MakeDate (Day (LocalTime 3600000 t) - 1) 0))" for t
    by (rule getStartOfYesterday_eq)
      (simp_all add: maxTime_def MakeDate_def Day_def LocalTime_def msPerDay_def)
  show ?thesis
    by (simp add: getCalendarStartDate_def m formatDate_Some isoDate_2024_12_14_late
        isoDate_2024_12_15 Day_def LocalTime_def UTC_def MakeDate_def msPerDay_def)
qed

text \<open>
  C3 (as amended). On numbers and Date objects, \<open>calculatePortfolioMetrics\<close> fails if and
  only if the amount held is negative, the current price is zero or negative, the start
  price is zero or negative, or both dates are valid and \<open>now\<close> is not after the start
  instant. Every failure is a plain \<^verbatim>\<open>Error\<close>, told from the others by its message only; a
  negative amount and a negative current price give the same message. For every other
  input, so for a positive current price, it returns the metrics.
\<close>

theorem portfolio_metrics_fail_iff:
  "(isl (calculatePortfolioMetrics pow (Num amountHeld) (Num currentPrice) (Num startPrice)
          (DateObj startInstant) (DateObj now))
    \<longleftrightarrow> num_lt amountHeld (Fin 0) \<or> num_le currentPrice (Fin 0) \<or> num_le startPrice (Fin 0)
        \<or> (case (startInstant, now) of (Some s, Some n) \<Rightarrow> n \<le> s | _ \<Rightarrow> False))
   \<and> (num_lt amountHeld (Fin 0) \<or> num_lt currentPrice (Fin 0) \<longrightarrow>
        calculatePortfolioMetrics pow (Num amountHeld) (Num currentPrice) (Num startPrice)
          (DateObj startInstant) (DateObj now)
        = Inl (Error ''BTC amount and current price must be non-negative''))"
proof -
  have "(case (startInstant, now) of (Some s, Some n) \<Rightarrow> n \<le> s | _ \<Rightarrow> False)
      = (case (startInstant, now) of (Some x, Some y) \<Rightarrow> x \<ge> y | _ \<Rightarrow> False)"
    by (simp split: option.splits)
  then have a: "isl (calculatePortfolioMetrics pow (Num amountHeld) (Num currentPrice)
          (Num startPrice) (DateObj startInstant) (DateObj now))
    \<longleftrightarrow> num_lt amountHeld (Fin 0) \<or> num_le currentPrice (Fin 0) \<or> num_le startPrice (Fin 0)
        \<or> (case (startInstant, now) of (Some s, Some n) \<Rightarrow> n \<le> s | _ \<Rightarrow> False)"
    by (simp only: metrics_isl)
  have b: "num_lt amountHeld (Fin 0) \<or> num_lt currentPrice (Fin 0) \<longrightarrow>
        calculatePortfolioMetrics pow (Num amountHeld) (Num currentPrice) (Num startPrice)
          (DateObj startInstant) (DateObj now)
        = Inl (Error ''BTC amount and current price must be non-negative'')"
    by (auto simp add: calculatePortfolioMetrics_def calculateTotalValue_def)
  from a b show ?thesis by blast
qed

theorem portfolio_metrics_fail_iff_witness:
  "\<forall>pow. \<not> isl (calculatePortfolioMetrics pow (Num (Fin 1)) (Num (Fin 45000)) (Num (Fin 50000))
                  (DateObj (Some 1734220800000)) (DateObj (Some 1734350400000)))
       \<and> calculatePortfolioMetrics pow (Num (Fin 1)) (Num (Fin (- 45000))) (Num (Fin 50000))
                  (DateObj (Some 1734220800000)) (DateObj (Some 1734350400000))
          = Inl (Error ''BTC amount and current price must be non-negative'')"
proof
  fix pow :: "num \<Rightarrow> num \<Rightarrow> num"
  show "\<not> isl (calculatePortfolioMetrics pow (Num (Fin 1)) (Num (Fin 45000)) (Num (Fin 50000))
                  (DateObj (Some 1734220800000)) (DateObj (Some 1734350400000)))
       \<and> calculatePortfolioMetrics pow (Num (Fin 1)) (Num (Fin (- 45000))) (Num (Fin 50000))
                  (DateObj (Some 1734220800000)) (DateObj (Some 1734350400000))
          = Inl (Error ''BTC amount and current price must be non-negative'')"
    using portfolio_metrics_fail_iff [of pow "Fin 1" "Fin 45000" "Fin 50000"
        "Some 1734220800000" "Some 1734350400000"]
      portfolio_metrics_fail_iff [of pow "Fin 1" "Fin (- 45000)" "Fin 50000"
        "Some 1734220800000" "Some 1734350400000"]
    by simp
qed

text \<open>
  C3 as stated fails at a current price of zero: the amount is 1, the current price 0,
  the start price 50000 and \<open>now\<close> a day after the start instant, and the guard of
  \<open>calculateCAGR\<close> rejects the input.
\<close>

theorem portfolio_metrics_zero_price_counterexample:
  "\<not> num_lt (Fin 1) (Fin 0) \<and> \<not> num_lt (Fin 0) (Fin 0) \<and> \<not> num_le (Fin 50000) (Fin 0)
   \<and> (0::int) < 86400000
   \<and> (\<forall>pow. calculatePortfolioMetrics pow (Num (Fin 1)) (Num (Fin 0)) (Num (Fin 50000))
               (DateObj (Some 0)) (DateObj (Some 86400000))
             = Inl (Error ''All parameters must be positive numbers''))"
  by (simp add: calculatePortfolioMetrics_def calculateTotalValue_def calculateAbsoluteGain_def
      calculatePercentageGain_def calculateCAGR_def years_value Let_def)

text \<open>
  C4. For every valid input, that is an amount that is not negative, prices above zero
  and \<open>now\<close> after the start instant, \<open>calculatePortfolioMetrics\<close> returns metrics in which
  \<open>years\<close> is the time between the two instants in years of 365.25 days, \<open>cagr\<close> is the
  one computation on the prices and \<open>years\<close>, and \<open>displayCAGR\<close> is null if and only if
  \<open>years\<close> is less than 30/365.25, which is if and only if the period is shorter than 30
  days; otherwise, so whenever \<open>years\<close> is at least 30/365.25, \<open>displayCAGR\<close> is the
  value of \<open>cagr\<close> itself. The metrics of every other input that the function accepts
  have the same relation between \<open>displayCAGR\<close>, \<open>years\<close> and \<open>cagr\<close>.
\<close>

theorem display_cagr_gate:
  assumes "\<not> num_lt amountHeld (Fin 0)" "\<not> num_le currentPrice (Fin 0)"
    and "\<not> num_le startPrice (Fin 0)" "startInstant < now"
  shows "(\<exists>m. calculatePortfolioMetrics pow (Num amountHeld) (Num currentPrice) (Num startPrice)
               (DateObj (Some startInstant)) (DateObj (Some now)) = Inr m
            \<and> years m = Fin (real_of_int (now - startInstant) / 86400000 / 365.25)
            \<and> cagr m = num_sub (pow (num_div currentPrice startPrice)
                                    (num_div (Fin 1) (years m))) (Fin 1)
            \<and> displayCAGR m = (if num_lt (years m) (num_div (Fin 30) (Fin 365.25)) then None
                                else Some (cagr m))
            \<and> (displayCAGR m = None \<longleftrightarrow> num_lt (years m) (num_div (Fin 30) (Fin 365.25)))
            \<and> (displayCAGR m = None \<longleftrightarrow> now - startInstant < 30 * msPerDay)
            \<and> (num_le (num_div (Fin 30) (Fin 365.25)) (years m) \<longrightarrow>
                  displayCAGR m = Some (cagr m)))
         \<and> (\<forall>btcAmount price purchasePrice purchaseDate currentDate m.
               calculatePortfolioMetrics pow btcAmount price purchasePrice purchaseDate
                 currentDate = Inr m \<longrightarrow>
               displayCAGR m = (if num_lt (years m) (num_div (Fin 30) (Fin 365.25)) then None
                                else Some (cagr m)))"
proof -
  define y where "y = Fin (real_of_int (now - startInstant) / 86400000 / 365.25)"
  define c where "c = num_sub (pow (num_div currentPrice startPrice) (num_div (Fin 1) y)) (Fin 1)"
  define m where "m = \<lparr>totalValue = num_mul amountHeld currentPrice,
          absoluteGain = num_sub (num_mul amountHeld currentPrice) (num_mul amountHeld startPrice),
          percentageGain = num_div (num_sub currentPrice startPrice) startPrice,
          cagr = c,
          displayCAGR = (if num_lt y (num_div (Fin 30) (Fin 365.25)) then None else Some c),
          years = y,
          initialValue = num_mul amountHeld startPrice\<rparr>"
  have yv: "calculateYearsBetweenDates (DateObj (Some startInstant)) (DateObj (Some now)) = Inr y"
    using assms(4) by (simp add: years_value y_def)
  have r: "calculatePortfolioMetrics pow (Num amountHeld) (Num currentPrice) (Num startPrice)
               (DateObj (Some startInstant)) (DateObj (Some now)) = Inr m"
    unfolding m_def c_def by (rule metrics_value [OF assms(1-3) yv])
  have f: "years m = y" "cagr m = c"
    "displayCAGR m = (if num_lt y (num_div (Fin 30) (Fin 365.25)) then None else Some c)"
    by (simp_all add: m_def)
  have d: "num_lt y (num_div (Fin 30) (Fin 365.25)) \<longleftrightarrow> now - startInstant < 30 * msPerDay"
  proof -
    have "real_of_int (now - startInstant) / 86400000 / 365.25 < 30 / 365.25
        \<longleftrightarrow> real_of_int (now - startInstant) < 30 * 86400000"
      by (auto simp add: field_simps)
    also have "\<dots> \<longleftrightarrow> now - startInstant < 30 * 86400000"
      using of_int_less_iff [of "now - startInstant" "30 * 86400000", where ?'a = real] by simp
    finally show ?thesis by (simp add: y_def msPerDay_def)
  qed
  have 1: "\<exists>m. calculatePortfolioMetrics pow (Num amountHeld) (Num currentPrice) (Num startPrice)
               (DateObj (Some startInstant)) (DateObj (Some now)) = Inr m
            \<and> years m = Fin (real_of_int (now - startInstant) / 86400000 / 365.25)
            \<and> cagr m = num_sub (pow (num_div currentPrice startPrice)
                                    (num_div (Fin 1) (years m))) (Fin 1)
            \<and> displayCAGR m = (if num_lt (years m) (num_div (Fin 30) (Fin 365.25)) then None
                                else Some (cagr m))
            \<and> (displayCAGR m = None \<longleftrightarrow> num_lt (years m) (num_div (Fin 30) (Fin 365.25)))
            \<and> (displayCAGR m = None \<longleftrightarrow> now - startInstant < 30 * msPerDay)
            \<and> (num_le (num_div (Fin 30) (Fin 365.25)) (years m) \<longrightarrow>
                  displayCAGR m = Some (cagr m))"
  proof (intro exI [of _ m] conjI)
    show "num_le (num_div (Fin 30) (Fin 365.25)) (years m) \<longrightarrow> displayCAGR m = Some (cagr m)"
      using num_le_not_lt [of "num_div (Fin 30) (Fin 365.25)" y] by (simp add: f)
    show "displayCAGR m = None \<longleftrightarrow> now - startInstant < 30 * msPerDay"
      using d by (simp add: f)
  qed (simp_all add: r f, simp_all add: y_def c_def)
  have 2: "displayCAGR m' = (if num_lt (years m') (num_div (Fin 30) (Fin 365.25)) then None
                                else Some (cagr m'))"
    if "calculatePortfolioMetrics pow btcAmount price purchasePrice purchaseDate currentDate
          = Inr m'" for btcAmount price purchasePrice purchaseDate currentDate m'
  proof -
    from that obtain yy cc dd where
      c: "calculateCAGR pow price purchasePrice (Num yy) = Inr cc" and
      d: "calculateDisplayCAGR pow price purchasePrice yy = Inr dd" and
      m: "years m' = yy" "cagr m' = cc" "displayCAGR m' = dd"
      by (auto simp add: calculatePortfolioMetrics_def split: sum.splits)
    from c d have "dd = (if num_lt yy (num_div (Fin 30) (Fin 365.25)) then None else Some cc)"
      by (simp add: displayCAGR_value split: if_splits)
    then show ?thesis by (simp add: m)
  qed
  from 1 2 show ?thesis by blast
qed

text \<open>
  A day and a half gives null; thirty days, the threshold itself, and forty-five days
  give the value of \<open>cagr\<close>.
\<close>

theorem display_cagr_gate_witness:
  "\<forall>pow.
     (\<exists>m. calculatePortfolioMetrics pow (Num (Fin 1)) (Num (Fin 51000)) (Num (Fin 50000))
             (DateObj (Some 0)) (DateObj (Some 129600000)) = Inr m
         \<and> years m = Fin (1.5 / 365.25) \<and> displayCAGR m = None)
   \<and> (\<exists>m. calculatePortfolioMetrics pow (Num (Fin 1)) (Num (Fin 51000)) (Num (Fin 50000))
             (DateObj (Some 0)) (DateObj (Some 2592000000)) = Inr m
         \<and> years m = Fin (30 / 365.25) \<and> displayCAGR m = Some (cagr m))
   \<and> (\<exists>m. calculatePortfolioMetrics pow (Num (Fin 1)) (Num (Fin 51000)) (Num (Fin 50000))
             (DateObj (Some 0)) (DateObj (Some 3888000000)) = Inr m
         \<and> years m = Fin (45 / 365.25) \<and> displayCAGR m = Some (cagr m)
         \<and> cagr m = num_sub (pow (Fin (51000 / 50000)) (Fin (365.25 / 45))) (Fin 1))"
proof
  fix pow :: "num \<Rightarrow> num \<Rightarrow> num"
  have a: "\<not> num_lt (Fin 1) (Fin 0)" "\<not> num_le (Fin 51000) (Fin 0)"
    "\<not> num_le (Fin 50000) (Fin 0)"
    by simp_all
  from display_cagr_gate [OF a, of 0 129600000 pow, THEN conjunct1]
  have 1: "\<exists>m. calculatePortfolioMetrics pow (Num (Fin 1)) (Num (Fin 51000)) (Num (Fin 50000))
             (DateObj (Some 0)) (DateObj (Some 129600000)) = Inr m
         \<and> years m = Fin (1.5 / 365.25) \<and> displayCAGR m = None"
    by (auto simp add: msPerDay_def)
  from display_cagr_gate [OF a, of 0 2592000000 pow, THEN conjunct1]
  have 2: "\<exists>m. calculatePortfolioMetrics pow (Num (Fin 1)) (Num (Fin 51000)) (Num (Fin 50000))
             (DateObj (Some 0)) (DateObj (Some 2592000000)) = Inr m
         \<and> years m = Fin (30 / 365.25) \<and> displayCAGR m = Some (cagr m)"
    by (auto simp add: msPerDay_def split: if_splits)
  from display_cagr_gate [OF a, of 0 3888000000 pow, THEN conjunct1]
  have 3: "\<exists>m. calculatePortfolioMetrics pow (Num (Fin 1)) (Num (Fin 51000)) (Num (Fin 50000))
             (DateObj (Some 0)) (DateObj (Some 3888000000)) = Inr m
         \<and> years m = Fin (45 / 365.25) \<and> displayCAGR m = Some (cagr m)
         \<and> cagr m = num_sub (pow (Fin (51000 / 50000)) (Fin (365.25 / 45))) (Fin 1)"
    by (auto simp add: msPerDay_def split: if_splits)
  from 1 2 3
  show "(\<exists>m. calculatePortfolioMetrics pow (Num (Fin 1)) (Num (Fin 51000)) (Num (Fin 50000))
             (DateObj (Some 0)) (DateObj (Some 129600000)) = Inr m
         \<and> years m = Fin (1.5 / 365.25) \<and> displayCAGR m = None)
   \<and> (\<exists>m. calculatePortfolioMetrics pow (Num (Fin 1)) (Num (Fin 51000)) (Num (Fin 50000))
             (DateObj (Some 0)) (DateObj (Some 2592000000)) = Inr m
         \<and> years m = Fin (30 / 365.25) \<and> displayCAGR m = Some (cagr m))
   \<and> (\<exists>m. calculatePortfolioMetrics pow (Num (Fin 1)) (Num (Fin 51000)) (Num (Fin 50000))
             (DateObj (Some 0)) (DateObj (Some 3888000000)) = Inr m
         \<and> years m = Fin (45 / 365.25) \<and> displayCAGR m = Some (cagr m)
         \<and> cagr m = num_sub (pow (Fin (51000 / 50000)) (Fin (365.25 / 45))) (Fin 1))"
    by blast
qed

text \<open>
  C10. For every number \<open>years\<close> less than 30/365.25 and all values of the two prices,
  zero, negative and non-numeric ones included, \<open>calculateDisplayCAGR\<close> returns null and
  does not throw: the gate comes before the call of \<open>calculateCAGR\<close>, which is where the
  prices are checked.
\<close>

theorem display_cagr_short_period_is_null:
  assumes "num_lt yrs (num_div (Fin 30) (Fin 365.25))"
  shows "calculateDisplayCAGR pow currentPrice purchasePrice yrs = Inr None"
  using assms by (simp add: displayCAGR_value)

theorem display_cagr_short_period_is_null_witness:
  "\<forall>pow. calculateDisplayCAGR pow (Num (Fin 0)) (Num (Fin (- 5))) (Fin 0.01) = Inr None
       \<and> isl (calculateCAGR pow (Num (Fin 0)) (Num (Fin (- 5))) (Num (Fin 0.01)))"
proof
  fix pow :: "num \<Rightarrow> num \<Rightarrow> num"
  have "num_lt (Fin 0.01) (num_div (Fin 30) (Fin 365.25))" by simp
  from display_cagr_short_period_is_null [OF this]
  show "calculateDisplayCAGR pow (Num (Fin 0)) (Num (Fin (- 5))) (Fin 0.01) = Inr None
       \<and> isl (calculateCAGR pow (Num (Fin 0)) (Num (Fin (- 5))) (Num (Fin 0.01)))"
    by (simp add: CAGR_isl)
qed

text \<open>
  C2 (as amended). For a series that \<open>parseHistoricalData\<close> returned, with start instant
  \<open>t0\<close>, \<open>getPriceForDate\<close> at a Date counts the whole periods of 24 hours from \<open>t0\<close> to it:
  it returns null when that count is negative or not an index of the prices, and
  otherwise the date of the ISO string of the Date with the price at that index; it does
  not throw. A string is looked up as the Date it parses to. When \<open>start\<close> is a date of
  the ISO format, \<open>t0\<close> is a UTC midnight, and then for every index \<open>i\<close> of the prices:
  \<open>getPriceForDate\<close> at a Date anywhere within the UTC day \<open>t0 + i\<close> days, and at the date
  string of that day, returns the date string of that day (the one \<open>calculateDate\<close> gives
  for index \<open>i\<close>) with \<open>prices[i]\<close>; and at a Date whose UTC day is before the day of
  \<open>startDate\<close> or after the day of \<open>endDate\<close> it returns null. Every calendar date
  \<^verbatim>\<open>YYYY-MM-DD\<close> is a date of the ISO format (\<open>spec_calendar_date_iso\<close>).
\<close>

theorem price_lookup_by_day:
  assumes "parseHistoricalData eng raw = Inr h"
  shows "\<exists>t0. startDate h = Some t0
     \<and> (\<forall>t. getPriceForDate eng h (DateObj (Some t)) =
            (if (t - t0) div msPerDay < 0 \<or> int (length (prices h)) \<le> (t - t0) div msPerDay
             then Inr None
             else Inr (Some \<lparr>date = isoDate t, price = prices h ! nat ((t - t0) div msPerDay)\<rparr>)))
     \<and> (\<forall>s. getPriceForDate eng h (Str s)
             = (case parseDate eng s of
                  Inl e \<Rightarrow> Inl e
                | Inr d \<Rightarrow> getPriceForDate eng h (DateObj d)))
     \<and> (isISODate (start h) \<longrightarrow>
          Day t0 * msPerDay = t0
          \<and> endDate h = Some (t0 + (int (length (prices h)) - 1) * msPerDay)
          \<and> (\<forall>i tod. 0 \<le> i \<and> i < int (length (prices h)) \<and> 0 \<le> tod \<and> tod < msPerDay \<longrightarrow>
                calculateDate eng (start h) i = Inr (isoDate (t0 + i * msPerDay))
                \<and> getPriceForDate eng h (DateObj (Some (t0 + i * msPerDay + tod)))
                    = Inr (Some \<lparr>date = isoDate (t0 + i * msPerDay), price = prices h ! nat i\<rparr>)
                \<and> getPriceForDate eng h (Str (isoDate (t0 + i * msPerDay)))
                    = Inr (Some \<lparr>date = isoDate (t0 + i * msPerDay), price = prices h ! nat i\<rparr>))
          \<and> (\<forall>t. Day t < Day t0 \<or> Day t0 + (int (length (prices h)) - 1) < Day t \<longrightarrow>
                getPriceForDate eng h (DateObj (Some t)) = Inr None))"
proof -
  from series_of_parse [OF assms] obtain t0 where
    s: "startDate h = Some t0" and p: "parseDate eng (start h) = Inr (Some t0)"
    and r: "\<bar>t0\<bar> \<le> maxTime" "\<bar>t0 + (int (length (prices h)) - 1) * msPerDay\<bar> \<le> maxTime"
    and e: "endDate h
       = Some (Day (t0 + (int (length (prices h)) - 1) * msPerDay) * msPerDay)"
    by blast
  have dat: "getPriceForDate eng h (DateObj (Some t)) =
            (if (t - t0) div msPerDay < 0 \<or> int (length (prices h)) \<le> (t - t0) div msPerDay
             then Inr None
             else Inr (Some \<lparr>date = isoDate t, price = prices h ! nat ((t - t0) div msPerDay)\<rparr>))"
    for t
    by (rule getPriceForDate_Date [OF s])
  have str: "getPriceForDate eng h (Str x)
      = (case parseDate eng x of Inl e \<Rightarrow> Inl e | Inr d \<Rightarrow> getPriceForDate eng h (DateObj d))"
    for x
    by (simp add: getPriceForDate_def split: sum.splits)
  have iso: "Day t0 * msPerDay = t0
          \<and> endDate h = Some (t0 + (int (length (prices h)) - 1) * msPerDay)
          \<and> (\<forall>i tod. 0 \<le> i \<and> i < int (length (prices h)) \<and> 0 \<le> tod \<and> tod < msPerDay \<longrightarrow>
                calculateDate eng (start h) i = Inr (isoDate (t0 + i * msPerDay))
                \<and> getPriceForDate eng h (DateObj (Some (t0 + i * msPerDay + tod)))
                    = Inr (Some \<lparr>date = isoDate (t0 + i * msPerDay), price = prices h ! nat i\<rparr>)
                \<and> getPriceForDate eng h (Str (isoDate (t0 + i * msPerDay)))
                    = Inr (Some \<lparr>date = isoDate (t0 + i * msPerDay), price = prices h ! nat i\<rparr>))
          \<and> (\<forall>t. Day t < Day t0 \<or> Day t0 + (int (length (prices h)) - 1) < Day t \<longrightarrow>
                getPriceForDate eng h (DateObj (Some t)) = Inr None)"
    if i: "isISODate (start h)"
  proof -
    from parseDate_midnight [OF i p] obtain k0 where k0: "t0 = k0 * msPerDay" by auto
    have mid: "Day t0 * msPerDay = t0" by (simp add: k0)
    have e': "endDate h = Some (t0 + (int (length (prices h)) - 1) * msPerDay)"
      unfolding e midnight_shift [OF i p] ..
    have inside: "calculateDate eng (start h) i = Inr (isoDate (t0 + i * msPerDay))
        \<and> getPriceForDate eng h (DateObj (Some (t0 + i * msPerDay + tod)))
            = Inr (Some \<lparr>date = isoDate (t0 + i * msPerDay), price = prices h ! nat i\<rparr>)
        \<and> getPriceForDate eng h (Str (isoDate (t0 + i * msPerDay)))
            = Inr (Some \<lparr>date = isoDate (t0 + i * msPerDay), price = prices h ! nat i\<rparr>)"
      if "0 \<le> i" "i < int (length (prices h))" "0 \<le> tod" "tod < msPerDay" for i tod
    proof -
      have rng: "\<bar>t0 + i * msPerDay\<bar> \<le> maxTime"
        using in_range_between [OF r that(1,2)] .
      have c: "calculateDate eng (start h) i = Inr (isoDate (t0 + i * msPerDay))"
        using rng by (simp add: calculateDate_eq [OF p])
      have iso: "isoDate (t0 + i * msPerDay + tod) = isoDate (t0 + i * msPerDay)"
        using isoDate_tod [OF that(3,4), of "k0 + i"] by (simp add: k0 algebra_simps)
      have g: "getPriceForDate eng h (DateObj (Some (t0 + i * msPerDay + tod')))
            = Inr (Some \<lparr>date = isoDate (t0 + i * msPerDay + tod'), price = prices h ! nat i\<rparr>)"
        if "0 \<le> tod'" "tod' < msPerDay" for tod'
      proof -
        have dv: "(t0 + i * msPerDay + tod' - t0) div msPerDay = i"
          by (rule div_day_offset [OF that])
        show ?thesis
          unfolding getPriceForDate_Date [OF s] dv
          using \<open>0 \<le> i\<close> \<open>i < int (length (prices h))\<close> by simp
      qed
      have pd: "parseDate eng (isoDate (t0 + i * msPerDay)) = Inr (Some (t0 + i * msPerDay))"
        using parseDate_isoDate [OF rng] midnight_shift [OF \<open>isISODate (start h)\<close> p, of i]
        by simp
      have "getPriceForDate eng h (Str (isoDate (t0 + i * msPerDay)))
            = getPriceForDate eng h (DateObj (Some (t0 + i * msPerDay + 0)))"
        by (simp add: str pd)
      also have "\<dots> = Inr (Some \<lparr>date = isoDate (t0 + i * msPerDay), price = prices h ! nat i\<rparr>)"
        using g [of 0] by (simp add: msPerDay_def)
      finally show ?thesis using c g [OF that(3,4)] by (simp add: iso)
    qed
    have outside: "getPriceForDate eng h (DateObj (Some t)) = Inr None"
      if "Day t < Day t0 \<or> Day t0 + (int (length (prices h)) - 1) < Day t" for t
    proof -
      have "(t - t0) div msPerDay = Day t - k0"
        by (simp add: k0 Day_def msPerDay_def)
      moreover have "Day t0 = k0" by (simp add: k0)
      ultimately show ?thesis
        using that by (auto simp add: getPriceForDate_Date [OF s])
    qed
    from mid e' inside outside show ?thesis by blast
  qed
  from s dat str iso show ?thesis by blast
qed

text \<open>
  On the series of scenario A: noon of 2024-12-15 and the string of that day give the
  price of the day; the first instant after the last day and the last instant before the
  first give null.
\<close>

theorem price_lookup_by_day_witness:
  "getPriceForDate (sampleEngine 0) seriesA (DateObj (Some 1734264000000))
     = Inr (Some \<lparr>date = ''2024-12-15'', price = Num (Fin 50000)\<rparr>)
   \<and> getPriceForDate (sampleEngine 0) seriesA (Str ''2024-12-15'')
     = Inr (Some \<lparr>date = ''2024-12-15'', price = Num (Fin 50000)\<rparr>)
   \<and> getPriceForDate (sampleEngine 0) seriesA (DateObj (Some 1734393600000)) = Inr None
   \<and> getPriceForDate (sampleEngine 0) seriesA (DateObj (Some 1734134399999)) = Inr None"
proof -
  have p: "parseHistoricalData (sampleEngine 0) seriesA_raw = Inr seriesA"
    by (simp add: parse_seriesA)
  have "isISODate (start seriesA)"
    using spec_calendar_date_iso [OF calendar_2024_12_14] by simp
  with price_lookup_by_day [OF p] obtain t0 where
    t0: "startDate seriesA = Some t0"
    and a: "\<And>i tod. 0 \<le> i \<and> i < int (length (prices seriesA)) \<and> 0 \<le> tod \<and> tod < msPerDay \<Longrightarrow>
           getPriceForDate (sampleEngine 0) seriesA (DateObj (Some (t0 + i * msPerDay + tod)))
               = Inr (Some \<lparr>date = isoDate (t0 + i * msPerDay), price = prices seriesA ! nat i\<rparr>)
           \<and> getPriceForDate (sampleEngine 0) seriesA (Str (isoDate (t0 + i * msPerDay)))
               = Inr (Some \<lparr>date = isoDate (t0 + i * msPerDay), price = prices seriesA ! nat i\<rparr>)"
    and b: "\<And>t. Day t < Day t0 \<or> Day t0 + (int (length (prices seriesA)) - 1) < Day t \<Longrightarrow>
           getPriceForDate (sampleEngine 0) seriesA (DateObj (Some t)) = Inr None"
    by blast
  from t0 have t: "t0 = 1734134400000" by simp
  have i: "isoDate (1734134400000 + msPerDay) = ''2024-12-15''"
    using isoDate_2024_12_15 by (simp add: msPerDay_def)
  from a [of 1 43200000] b [of 1734393600000] b [of 1734134399999] show ?thesis
    by (simp add: t i) (simp add: msPerDay_def Day_def)
qed

text \<open>
  C2 as stated fails for a series whose \<open>start\<close> is not of the ISO format. The engine of
  the example, one hour east of UTC, reads the start \<^verbatim>\<open>2024-12-14(\<close> as local midnight, the
  instant 2024-12-13T23:00Z, and \<open>parseHistoricalData\<close> accepts it. Then 00:00Z and 23:30Z
  of the one UTC day 2024-12-14 get two prices, 52000 and 50000; and 2024-12-16T00:00Z,
  a day after \<open>endDate\<close> (2024-12-15T00:00Z), gets a price and not null.
\<close>

theorem price_lookup_local_start_counterexample:
  "parseHistoricalData (sampleEngine 3600000) seriesD_raw = Inr seriesD
   \<and> Day 1734134400000 = Day 1734219000000
   \<and> getPriceForDate (sampleEngine 3600000) seriesD (DateObj (Some 1734134400000))
       = Inr (Some \<lparr>date = ''2024-12-14'', price = Num (Fin 52000)\<rparr>)
   \<and> getPriceForDate (sampleEngine 3600000) seriesD (DateObj (Some 1734219000000))
       = Inr (Some \<lparr>date = ''2024-12-14'', price = Num (Fin 50000)\<rparr>)
   \<and> endDate seriesD = Some 1734220800000
   \<and> Day 1734220800000 < Day 1734307200000
   \<and> getPriceForDate (sampleEngine 3600000) seriesD (DateObj (Some 1734307200000))
       = Inr (Some \<lparr>date = ''2024-12-16'', price = Num (Fin 45000)\<rparr>)"
  by (simp add: parse_seriesD getPriceForDate_Date [of seriesD 1734130800000]
      isoDate_2024_12_14 isoDate_2024_12_14_2330 isoDate_2024_12_16 msPerDay_def Day_def)

text \<open>
  C8 (as amended). For a series that \<open>parseHistoricalData\<close> returned and two parseable
  dates, \<open>getPriceRange\<close> throws if and only if the first is after the second. Otherwise
  it returns, in order, the entries of the indices from the count of whole periods of
  24 hours between the start instant and the first date, or 0 if that is negative, to
  the count for the second date, or the last index if that is less. When the \<open>start\<close> of
  the series and the two dates are dates of the ISO format, these are the entries for the
  days of the series from the first date to the second, each with the date string of the
  day and the price of the day; so the empty list when the range ends before the series
  starts or starts after it ends. Every calendar date \<^verbatim>\<open>YYYY-MM-DD\<close> is a date of the ISO
  format (\<open>spec_calendar_date_iso\<close>).
\<close>

theorem price_range_clipped:
  assumes "parseHistoricalData eng raw = Inr h"
    and "parseDate eng fromDate = Inr (Some a)" "parseDate eng toDate = Inr (Some b)"
  shows "(isl (getPriceRange eng h fromDate toDate) \<longleftrightarrow> b < a)
     \<and> (\<exists>t0. startDate h = Some t0
           \<and> (a \<le> b \<longrightarrow>
                getPriceRange eng h fromDate toDate =
                  Inr (map (\<lambda>i. \<lparr>date = isoDate (t0 + i * msPerDay), price = prices h ! nat i\<rparr>)
                        [max 0 ((a - t0) div msPerDay)
                         ..min (int (length (prices h)) - 1) ((b - t0) div msPerDay)]))
           \<and> (isISODate (start h) \<and> isISODate fromDate \<and> isISODate toDate \<longrightarrow>
                endDate h = Some (t0 + (int (length (prices h)) - 1) * msPerDay)
                \<and> (a \<le> b \<longrightarrow>
                     getPriceRange eng h fromDate toDate =
                       Inr (map (\<lambda>i. \<lparr>date = isoDate (t0 + i * msPerDay),
                                       price = prices h ! nat i\<rparr>)
                             (filter (\<lambda>i. a \<le> t0 + i * msPerDay \<and> t0 + i * msPerDay \<le> b)
                                [0..int (length (prices h)) - 1])))
                \<and> (a \<le> b \<and> (b < t0 \<or> t0 + (int (length (prices h)) - 1) * msPerDay < a) \<longrightarrow>
                     getPriceRange eng h fromDate toDate = Inr [])))"
proof -
  from series_of_parse [OF assms(1)] obtain t0 where
    s: "startDate h = Some t0" and p: "parseDate eng (start h) = Inr (Some t0)"
    and e: "endDate h
       = Some (Day (t0 + (int (length (prices h)) - 1) * msPerDay) * msPerDay)"
    by blast
  note v = getPriceRange_value [OF assms s]
  have 1: "isl (getPriceRange eng h fromDate toDate) \<longleftrightarrow> b < a" by (simp add: v)
  have 2: "a \<le> b \<longrightarrow>
                getPriceRange eng h fromDate toDate =
                  Inr (map (\<lambda>i. \<lparr>date = isoDate (t0 + i * msPerDay), price = prices h ! nat i\<rparr>)
                        [max 0 ((a - t0) div msPerDay)
                         ..min (int (length (prices h)) - 1) ((b - t0) div msPerDay)])"
    by (simp add: v)
  have 3: "endDate h = Some (t0 + (int (length (prices h)) - 1) * msPerDay)
                \<and> (a \<le> b \<longrightarrow>
                     getPriceRange eng h fromDate toDate =
                       Inr (map (\<lambda>i. \<lparr>date = isoDate (t0 + i * msPerDay),
                                       price = prices h ! nat i\<rparr>)
                             (filter (\<lambda>i. a \<le> t0 + i * msPerDay \<and> t0 + i * msPerDay \<le> b)
                                [0..int (length (prices h)) - 1])))
                \<and> (a \<le> b \<and> (b < t0 \<or> t0 + (int (length (prices h)) - 1) * msPerDay < a) \<longrightarrow>
                     getPriceRange eng h fromDate toDate = Inr [])"
    if i: "isISODate (start h)" "isISODate fromDate" "isISODate toDate"
  proof -
    note g = getPriceRange_eq [OF assms s i]
    have e': "endDate h = Some (t0 + (int (length (prices h)) - 1) * msPerDay)"
      unfolding e midnight_shift [OF i(1) p] ..
    have none: "filter (\<lambda>i. a \<le> t0 + i * msPerDay \<and> t0 + i * msPerDay \<le> b)
                  [0..int (length (prices h)) - 1] = []"
      if "b < t0 \<or> t0 + (int (length (prices h)) - 1) * msPerDay < a"
    proof -
      have "\<not> (a \<le> t0 + i * msPerDay \<and> t0 + i * msPerDay \<le> b)"
        if i: "0 \<le> i" "i \<le> int (length (prices h)) - 1" for i
      proof -
        have "0 \<le> i * msPerDay" using i(1) by (simp add: msPerDay_def)
        moreover have "i * msPerDay \<le> (int (length (prices h)) - 1) * msPerDay"
          using i(2) by (simp add: msPerDay_def)
        ultimately show ?thesis
          using \<open>b < t0 \<or> t0 + (int (length (prices h)) - 1) * msPerDay < a\<close> by linarith
      qed
      then show ?thesis by (auto simp add: filter_empty_conv)
    qed
    have b2: "a \<le> b \<longrightarrow>
                     getPriceRange eng h fromDate toDate =
                       Inr (map (\<lambda>i. \<lparr>date = isoDate (t0 + i * msPerDay),
                                       price = prices h ! nat i\<rparr>)
                             (filter (\<lambda>i. a \<le> t0 + i * msPerDay \<and> t0 + i * msPerDay \<le> b)
                                [0..int (length (prices h)) - 1]))"
      by (simp add: g)
    have b3: "a \<le> b \<and> (b < t0 \<or> t0 + (int (length (prices h)) - 1) * msPerDay < a) \<longrightarrow>
                     getPriceRange eng h fromDate toDate = Inr []"
      using none by (auto simp add: g)
    from e' b2 b3 show ?thesis by blast
  qed
  from s 1 2 3 show ?thesis by blast
qed

text \<open>
  On the series of scenario A: a range from before the series to its second day gives
  the first two entries; a range that ends before it starts throws; a range before the
  series gives the empty list.
\<close>

theorem price_range_clipped_witness:
  "getPriceRange (sampleEngine 0) seriesA ''2024-12-01'' ''2024-12-15''
     = Inr [\<lparr>date = ''2024-12-14'', price = Num (Fin 52000)\<rparr>,
            \<lparr>date = ''2024-12-15'', price = Num (Fin 50000)\<rparr>]
   \<and> isl (getPriceRange (sampleEngine 0) seriesA ''2024-12-15'' ''2024-12-14'')
   \<and> getPriceRange (sampleEngine 0) seriesA ''2024-12-01'' ''2024-12-01'' = Inr []"
proof -
  have p: "parseHistoricalData (sampleEngine 0) seriesA_raw = Inr seriesA"
    by (simp add: parse_seriesA)
  have d: "isISODate ''2024-12-14''" "isISODate ''2024-12-15''" "isISODate ''2024-12-01''"
    by (simp_all add: isISODate_def parseISODate_def parseYear_def parseField_def digitVal_def)
  from price_range_clipped [OF p parseDate_2024_12_01 parseDate_2024_12_15]
    price_range_clipped [OF p parseDate_2024_12_15 parseDate_2024_12_14]
    price_range_clipped [OF p parseDate_2024_12_01 parseDate_2024_12_01]
  show ?thesis
    by (simp add: d msPerDay_def upto_rec1 isoDate_2024_12_14 isoDate_2024_12_15)
qed

text \<open>
  C8 as stated fails for a series whose \<open>start\<close> is not of the ISO format. For the series
  that the engine of the example, one hour east of UTC, parses from the start
  \<^verbatim>\<open>2024-12-14(\<close>, the range from 2024-12-16 to 2024-12-16, which lies after the \<open>endDate\<close>
  of the series (2024-12-15T00:00Z), is not empty: it holds an entry, and the date of the
  entry, 2024-12-15, is not in the range.
\<close>

theorem price_range_local_start_counterexample:
  "parseHistoricalData (sampleEngine 3600000) seriesD_raw = Inr seriesD
   \<and> endDate seriesD = Some 1734220800000
   \<and> parseDate (sampleEngine 3600000) ''2024-12-16'' = Inr (Some 1734307200000)
   \<and> (1734220800000 :: int) < 1734307200000
   \<and> getPriceRange (sampleEngine 3600000) seriesD ''2024-12-16'' ''2024-12-16''
       = Inr [\<lparr>date = ''2024-12-15'', price = Num (Fin 45000)\<rparr>]"
proof -
  have "getPriceRange (sampleEngine 3600000) seriesD ''2024-12-16'' ''2024-12-16''
       = Inr [\<lparr>date = ''2024-12-15'', price = Num (Fin 45000)\<rparr>]"
    using getPriceRange_value [OF parse_seriesD parseDate_2024_12_16 parseDate_2024_12_16,
        of 1734130800000]
    by (simp add: msPerDay_def upto_rec1 isoDate_2024_12_15_late)
  then show ?thesis by (simp add: parse_seriesD parseDate_2024_12_16)
qed







text \<open>
  C7 (as amended). The metrics that \<open>calculatePortfolioMetrics\<close> returns have no staleness
  flag, and no function takes an indication of where the current price came from. The
  coordinator checks for stale data for the "1d" window only: when a start price is
  found and its date is the date of the latest price of the series, it computes no
  metrics and shows the placeholders \<^verbatim>\<open>N/A*\<close> (or an error), whatever the current price
  is; when the dates differ it computes the metrics and shows them. No other window
  shows the placeholders.
\<close>

theorem stale_check_is_by_date_and_for_1d_only:
  "(\<forall>timeHeld initial purchase.
      updatePortfolioMetricsForTimeWindow pow tza eng now st timeWindow
        = ShowNotAvailable timeHeld initial purchase \<longrightarrow> timeWindow = ''1d'')
   \<and> (\<forall>h spd latest.
        globalHistoricalData st = Some h
        \<and> getPriceForDate eng h (DateObj (getStartOfYesterday tza now)) = Inr (Some spd)
        \<and> getLatestPrice eng h = Inr latest \<longrightarrow>
        updatePortfolioMetricsForTimeWindow pow tza eng now st ''1d'' =
          (if date spd = date latest then
             (case calculateYearsBetweenDates (DateObj (newDateString eng (date spd)))
                     (DateObj now) of
                Inl e \<Rightarrow> ShowMetricsError ''Unable to calculate''
              | Inr timeHeld \<Rightarrow>
                  ShowNotAvailable timeHeld (num_mul (globalBtcAmount st) (numOf (price spd)))
                    (price spd))
           else
             (case calculatePortfolioMetrics pow (Num (globalBtcAmount st))
                     (Num (globalCurrentPrice st)) (price spd)
                     (DateObj (newDateString eng (date spd))) (DateObj now) of
                Inl e \<Rightarrow> ShowMetricsError ''Unable to calculate''
              | Inr m \<Rightarrow> ShowMetrics m)))"
proof (intro conjI allI impI)
  fix timeHeld initial purchase
  assume "updatePortfolioMetricsForTimeWindow pow tza eng now st timeWindow
        = ShowNotAvailable timeHeld initial purchase"
  then show "timeWindow = ''1d''" by (rule not_available_only_1d)
next
  fix h spd latest
  assume "globalHistoricalData st = Some h
        \<and> getPriceForDate eng h (DateObj (getStartOfYesterday tza now)) = Inr (Some spd)
        \<and> getLatestPrice eng h = Inr latest"
  then have a: "globalHistoricalData st = Some h"
    and b: "getPriceForDate eng h (DateObj (getStartOfYesterday tza now)) = Inr (Some spd)"
    and c: "getLatestPrice eng h = Inr latest"
    by blast+
  show "updatePortfolioMetricsForTimeWindow pow tza eng now st ''1d'' =
          (if date spd = date latest then
             (case calculateYearsBetweenDates (DateObj (newDateString eng (date spd)))
                     (DateObj now) of
                Inl e \<Rightarrow> ShowMetricsError ''Unable to calculate''
              | Inr timeHeld \<Rightarrow>
                  ShowNotAvailable timeHeld (num_mul (globalBtcAmount st) (numOf (price spd)))
                    (price spd))
           else
             (case calculatePortfolioMetrics pow (Num (globalBtcAmount st))
                     (Num (globalCurrentPrice st)) (price spd)
                     (DateObj (newDateString eng (date spd))) (DateObj now) of
                Inl e \<Rightarrow> ShowMetricsError ''Unable to calculate''
              | Inr m \<Rightarrow> ShowMetrics m))"
    by (rule update_1d [OF a b c])
qed

text \<open>
  At 2024-12-16T12:00Z on a host on UTC, with the series that ends on 2024-12-15, the
  "1d" window shows the placeholders for every current price.
\<close>

theorem stale_check_is_by_date_and_for_1d_only_witness:
  "\<forall>pow eng currentPrice.
     updatePortfolioMetricsForTimeWindow pow 0 eng (Some 1734350400000)
       \<lparr>globalHistoricalData = Some seriesB, globalBtcAmount = Fin 1,
        globalCurrentPrice = currentPrice\<rparr> ''1d''
     = ShowNotAvailable (Fin (1.5 / 365.25)) (Fin 50000) (Num (Fin 50000))"
proof (intro allI)
  fix pow :: "num \<Rightarrow> num \<Rightarrow> num" and eng :: engine and currentPrice :: num
  define st where "st = \<lparr>globalHistoricalData = Some seriesB, globalBtcAmount = Fin 1,
        globalCurrentPrice = currentPrice\<rparr>"
  have h: "globalHistoricalData st = Some seriesB" and a: "globalBtcAmount st = Fin 1"
    by (simp_all add: st_def)
  have p: "getPriceForDate eng seriesB (DateObj (getStartOfYesterday 0 (Some 1734350400000)))
      = Inr (Some \<lparr>date = ''2024-12-15'', price = Num (Fin 50000)\<rparr>)"
    by (simp only: yesterday_on_utc_host getPriceForDate_seriesB_yesterday)
  have y: "calculateYearsBetweenDates (DateObj (newDateString eng ''2024-12-15''))
              (DateObj (Some 1734350400000)) = Inr (Fin (1.5 / 365.25))"
    by (simp add: newDate_2024_12_15 years_value)
  note t = stale_check_is_by_date_and_for_1d_only [of pow 0 eng "Some 1734350400000" st "''1d''",
      THEN conjunct2, rule_format, OF conjI [OF h conjI [OF p getLatestPrice_seriesB]]]
  have "updatePortfolioMetricsForTimeWindow pow 0 eng (Some 1734350400000) st ''1d''
     = ShowNotAvailable (Fin (1.5 / 365.25)) (Fin 50000) (Num (Fin 50000))"
    unfolding t by (simp add: y a)
  then show "updatePortfolioMetricsForTimeWindow pow 0 eng (Some 1734350400000)
       \<lparr>globalHistoricalData = Some seriesB, globalBtcAmount = Fin 1,
        globalCurrentPrice = currentPrice\<rparr> ''1d''
     = ShowNotAvailable (Fin (1.5 / 365.25)) (Fin 50000) (Num (Fin 50000))"
    by (simp only: st_def)
qed

text \<open>
  C7 as stated fails in both directions, at 2024-12-16T12:00Z on a host on UTC. With the
  series that ends on 2024-12-15 and a current price of 45000, which is not the latest
  price of the series (50000) and so did not come from it, the "1d" window shows the
  placeholders. With the series of the single day 2024-12-16 and a current price equal
  to its latest price, the window "all" starts on the latest date of the series, and the
  metrics are shown, with gains of zero and nothing that marks them.
\<close>

theorem stale_flag_counterexample:
  "\<forall>eng.
     parseHistoricalData eng seriesB_raw
       = (if maxSpread eng < 2 then Inl RangeError else Inr seriesB)
   \<and> getLatestPrice eng seriesB = Inr \<lparr>date = ''2024-12-15'', price = Num (Fin 50000)\<rparr>
   \<and> (\<forall>pow. updatePortfolioMetricsForTimeWindow pow 0 eng (Some 1734350400000)
               \<lparr>globalHistoricalData = Some seriesB, globalBtcAmount = Fin 1,
                globalCurrentPrice = Fin 45000\<rparr> ''1d''
             = ShowNotAvailable (Fin (1.5 / 365.25)) (Fin 50000) (Num (Fin 50000)))
   \<and> parseHistoricalData eng seriesC_raw
       = (if maxSpread eng < 1 then Inl RangeError else Inr seriesC)
   \<and> getLatestPrice eng seriesC = Inr \<lparr>date = ''2024-12-16'', price = Num (Fin 50000)\<rparr>
   \<and> (\<forall>pow. \<exists>m. updatePortfolioMetricsForTimeWindow pow 0 eng (Some 1734350400000)
                   \<lparr>globalHistoricalData = Some seriesC, globalBtcAmount = Fin 1,
                    globalCurrentPrice = Fin 50000\<rparr> ''all''
                 = ShowMetrics m
               \<and> absoluteGain m = Fin 0 \<and> percentageGain m = Fin 0)"
proof
  fix eng :: engine
  have l: "getLatestPrice eng seriesC = Inr \<lparr>date = ''2024-12-16'', price = Num (Fin 50000)\<rparr>"
    using isoDate_2024_12_16
    by (simp add: getLatestPrice_def calculateDate_eq [OF parseDate_2024_12_16] index_def
        msPerDay_def maxTime_def)
  from parse_seriesB getLatestPrice_seriesB one_day_on_seriesB parse_seriesC l all_on_seriesC
  show "parseHistoricalData eng seriesB_raw
       = (if maxSpread eng < 2 then Inl RangeError else Inr seriesB)
   \<and> getLatestPrice eng seriesB = Inr \<lparr>date = ''2024-12-15'', price = Num (Fin 50000)\<rparr>
   \<and> (\<forall>pow. updatePortfolioMetricsForTimeWindow pow 0 eng (Some 1734350400000)
               \<lparr>globalHistoricalData = Some seriesB, globalBtcAmount = Fin 1,
                globalCurrentPrice = Fin 45000\<rparr> ''1d''
             = ShowNotAvailable (Fin (1.5 / 365.25)) (Fin 50000) (Num (Fin 50000)))
   \<and> parseHistoricalData eng seriesC_raw
       = (if maxSpread eng < 1 then Inl RangeError else Inr seriesC)
   \<and> getLatestPrice eng seriesC = Inr \<lparr>date = ''2024-12-16'', price = Num (Fin 50000)\<rparr>
   \<and> (\<forall>pow. \<exists>m. updatePortfolioMetricsForTimeWindow pow 0 eng (Some 1734350400000)
                   \<lparr>globalHistoricalData = Some seriesC, globalBtcAmount = Fin 1,
                    globalCurrentPrice = Fin 50000\<rparr> ''all''
                 = ShowMetrics m
               \<and> absoluteGain m = Fin 0 \<and> percentageGain m = Fin 0)"
    by (intro conjI allI)
qed

text \<open>
  C5, on a host one hour east of UTC. At 2024-12-16T12:00Z the "1d" window starts at
  local midnight of 2024-12-15, which is 2024-12-14T23:00Z; \<open>getPriceForDate\<close> reads the
  UTC day of that instant and returns the price of 2024-12-14, 52000; the metrics for
  one coin at a current price of 45000 then have an absolute gain of -7000 and a
  percentage gain of -7/52, not -5000 and -0.10. (\<open>seriesA\<close> is what the input of the
  claim parses to, \<open>parse_seriesA\<close>; the start price at the other offsets is in
  \<open>scenario_A_by_offset\<close>.)
\<close>

theorem scenario_A_on_a_host_east_of_UTC:
  "getCalendarStartDate 3600000 ''1d'' (Some 1734350400000) = Inr (Some 1734217200000)
   \<and> getPriceForDate eng seriesA (DateObj (Some 1734217200000))
       = Inr (Some \<lparr>date = ''2024-12-14'', price = Num (Fin 52000)\<rparr>)
   \<and> (\<forall>pow. \<exists>m. calculatePortfolioMetrics pow (Num (Fin 1)) (Num (Fin 45000)) (Num (Fin 52000))
                   (DateObj (newDateString eng ''2024-12-14'')) (DateObj (Some 1734350400000))
                 = Inr m
               \<and> absoluteGain m = Fin (- 7000) \<and> percentageGain m = Fin (- 7 / 52))"
proof -
  have y: "calculateYearsBetweenDates (DateObj (Some 1734134400000))
             (DateObj (Some 1734350400000)) = Inr (Fin (2.5 / 365.25))"
    by (simp add: years_value)
  have m: "\<exists>m. calculatePortfolioMetrics pow (Num (Fin 1)) (Num (Fin 45000)) (Num (Fin 52000))
                   (DateObj (newDateString eng ''2024-12-14'')) (DateObj (Some 1734350400000))
                 = Inr m
               \<and> absoluteGain m = Fin (- 7000) \<and> percentageGain m = Fin (- 7 / 52)" for pow
    using metrics_value [OF _ _ _ y, of "Fin 1" "Fin 45000" "Fin 52000" pow]
    by (simp add: newDate_2024_12_14 num_sub_def num_neg_def)
  show ?thesis
    using m
    by (simp add: getCalendarStartDate_def yesterday_on_host_east_of_utc
        getPriceForDate_seriesA_east)
qed

end
